theory Spec2Isabelle
  imports Main "HOL-Library.Sublist"
begin

section \<open>Data model of \<^verbatim>\<open>renderer.ts\<close>\<close>

text \<open>
  The renderer drives a browser engine (puppeteer) through \<open>Browser\<close> and \<open>Page\<close> objects.
  A render call opens one page, configures it, navigates, extracts the output and closes
  the page.
\<close>

text \<open>
  Modelled from the spec: the option types \<open>PageOptions\<close>, \<open>PageViewportOptions\<close>, \<open>PdfOptions\<close>
  and \<open>ScreenshotOptions\<close> are declared in \<^verbatim>\<open>./validate-schema\<close>, which is not part of the
  source. The records below have the fields \<^verbatim>\<open>renderer.ts\<close> reads; the media type is
  \<open>screen\<close> or \<open>print\<close>, the image format is one of the engine's formats, of which the
  source singles out \<^verbatim>\<open>'png'\<close>; the remaining navigation options are the wait condition and
  the timeout.
\<close>

datatype media_type = Screen | Print

datatype image_type = Png | Jpeg | Webp

record credentials =
  username :: string
  password :: string

text \<open>The navigation options: what remains of \<^verbatim>\<open>pageOptions\<close> after
  \<^verbatim>\<open>credentials\<close>, \<^verbatim>\<open>emulateMediaType\<close> and \<^verbatim>\<open>headers\<close> are taken out.\<close>

record goto_options =
  timeout :: "int option"
  waitUntil :: "string option"

record pageOptions = goto_options +
  credentials :: "credentials option"
  emulateMediaType :: "media_type option"
  headers :: "string option"

type_synonym pdfOptions = "(string \<times> string) list"

record pageViewportOptions =
  width :: int
  height :: int

text \<open>The capture options: \<^verbatim>\<open>screenshotOptions\<close> without \<^verbatim>\<open>animationTimeout\<close>.\<close>

record capture_options =
  imgtype :: image_type
  quality :: "int option"

record screenshotOptions = capture_options +
  animationTimeout :: int

datatype json = JNull | JBool bool | JNum int | JStr string
  | JArr "json list" | JObj "(string \<times> json) list"

type_synonym buffer = "nat list"

text \<open>The calls the renderer makes on the engine, as they appear in the trace. A call on a
  page carries the page's number.

  Modelled from the spec: \<^verbatim>\<open>./wait-for-animations\<close> is not part of the source; the settler is
  a call on the page, \<open>WaitForAnimations\<close>, that returns or throws like the engine's own.\<close>

datatype page_call =
    OnError
  | SetExtraHTTPHeaders json
  | EmulateMediaType media_type
  | Authenticate credentials
  | SetCacheEnabled bool
  | Goto string goto_options
  | Content
  | Pdf pdfOptions
  | SetViewport pageViewportOptions
  | WaitForAnimations screenshotOptions int
  | Screenshot capture_options
  | ClosePage

datatype call = NewPage | OnPage nat page_call | BrowserClose | RemoveSync string

datatype error = SyntaxError string | Rejected call | LaunchError

text \<open>What lies outside the renderer: which engine calls reject (given the trace up to and
  including the call), during which calls the engine closes the page of the call, what
  \<^verbatim>\<open>JSON.parse\<close> returns (\<open>None\<close>: it throws), and the values the engine resolves to.\<close>

record runtime =
  rejects :: "call list \<Rightarrow> bool"
  closes_page :: "call list \<Rightarrow> bool"
  JSON_parse :: "string \<Rightarrow> json option"
  content_value :: string
  pdf_value :: buffer
  screenshot_value :: buffer

record world =
  trace :: "call list"
  pages_opened :: nat
  pages_closed :: "nat list"
  console :: "error list"
  browser_open :: bool
  paths :: "string list"

type_synonym 'a io = "world \<Rightarrow> (error + 'a) \<times> world"

section \<open>Engine calls\<close>

text \<open>The engine can close a page on its own while a call on it is awaited (the page
  crashes, its script closes the window, the target goes away): \<open>closes_page\<close> of the
  runtime says so for the trace up to and including the call. \<^verbatim>\<open>page.close()\<close> itself is
  treated in \<open>page_close\<close>.\<close>

fun may_close :: "call \<Rightarrow> nat option" where
  "may_close (OnPage p ClosePage) = None"
| "may_close (OnPage p c) = Some p"
| "may_close c = None"

definition closed_after :: "runtime \<Rightarrow> call list \<Rightarrow> call \<Rightarrow> nat list \<Rightarrow> nat list" where
  "closed_after rt t c cl =
     (case may_close c of
        None \<Rightarrow> cl
      | Some p \<Rightarrow> if closes_page rt t \<and> p \<notin> set cl then cl @ [p] else cl)"

definition perform :: "runtime \<Rightarrow> call \<Rightarrow> unit io" where
  "perform rt c w =
     (let t = trace w @ [c]
      in (if rejects rt t then Inl (Rejected c) else Inr (),
          w\<lparr>trace := t, pages_closed := closed_after rt t c (pages_closed w)\<rparr>))"

definition bind_io :: "'a io \<Rightarrow> ('a \<Rightarrow> 'b io) \<Rightarrow> 'b io" where
  "bind_io m f w = (case m w of (Inl e, w') \<Rightarrow> (Inl e, w') | (Inr x, w') \<Rightarrow> f x w')"

definition return_io :: "'a \<Rightarrow> 'a io" where
  "return_io x w = (Inr x, w)"

definition throw_io :: "error \<Rightarrow> 'a io" where
  "throw_io e w = (Inl e, w)"

text \<open>\<^verbatim>\<open>try { m } finally { fin }\<close>: the completion of \<open>m\<close> is kept unless \<open>fin\<close> throws.\<close>

definition finally_io :: "'a io \<Rightarrow> unit io \<Rightarrow> 'a io" where
  "finally_io m fin w =
     (case m w of (r, w') \<Rightarrow>
        (case fin w' of (Inl e, w'') \<Rightarrow> (Inl e, w'') | (Inr _, w'') \<Rightarrow> (r, w'')))"

definition newPage :: "runtime \<Rightarrow> nat io" where
  "newPage rt w =
     (case perform rt NewPage w of
        (Inl e, w') \<Rightarrow> (Inl e, w')
      | (Inr _, w') \<Rightarrow> (Inr (pages_opened w'), w'\<lparr>pages_opened := Suc (pages_opened w')\<rparr>))"

text \<open>\<^verbatim>\<open>page.isClosed()\<close> reads a flag of the page and does not throw. A page is closed
  when a \<^verbatim>\<open>page.close()\<close> on it resolved or when the engine closed it during a call.\<close>

definition isClosed :: "nat \<Rightarrow> world \<Rightarrow> bool" where
  "isClosed p w = (p \<in> set (pages_closed w))"

definition page_close :: "runtime \<Rightarrow> nat \<Rightarrow> unit io" where
  "page_close rt p w =
     (case perform rt (OnPage p ClosePage) w of
        (Inl e, w') \<Rightarrow> (Inl e, w')
      | (Inr _, w') \<Rightarrow> (Inr (), w'\<lparr>pages_closed := pages_closed w' @ [p]\<rparr>))"

definition log_error :: "error \<Rightarrow> unit io" where
  "log_error e w = (Inr (), w\<lparr>console := console w @ [e]\<rparr>)"

text \<open>\<^verbatim>\<open>page.on('error', ...)\<close> registers a listener; it is recorded and cannot reject. The
  listener runs outside the call, on a later page error.\<close>

definition page_on_error :: "nat \<Rightarrow> unit io" where
  "page_on_error p w = (Inr (), w\<lparr>trace := trace w @ [OnPage p OnError]\<rparr>)"

section \<open>The renderer with the temporary data directory\<close>

text \<open>\<^verbatim>\<open>closePage\<close>: the whole body is inside \<^verbatim>\<open>try { } catch (e) { /* ignore */ }\<close>.\<close>

definition closePage :: "runtime \<Rightarrow> nat option \<Rightarrow> unit io" where
  "closePage rt page w =
     (case page of
        None \<Rightarrow> (Inr (), w)
      | Some p \<Rightarrow>
          if isClosed p w then (Inr (), w)
          else (case page_close rt p w of (Inl e, w') \<Rightarrow> (Inr (), w') | (Inr _, w') \<Rightarrow> (Inr (), w')))"

definition nav_options :: "pageOptions \<Rightarrow> goto_options" where
  "nav_options po = \<lparr>timeout = timeout po, waitUntil = waitUntil po\<rparr>"

text \<open>\<^verbatim>\<open>if (headers) await page.setExtraHTTPHeaders(JSON.parse(headers))\<close>: an absent or
  empty string is falsy; the argument is parsed before the engine is called.\<close>

definition apply_headers :: "runtime \<Rightarrow> nat \<Rightarrow> string option \<Rightarrow> unit io" where
  "apply_headers rt p hs =
     (case hs of
        None \<Rightarrow> return_io ()
      | Some h \<Rightarrow>
          if h = [] then return_io ()
          else (case JSON_parse rt h of
                  None \<Rightarrow> throw_io (SyntaxError h)
                | Some j \<Rightarrow> perform rt (OnPage p (SetExtraHTTPHeaders j))))"

definition apply_media :: "runtime \<Rightarrow> nat \<Rightarrow> media_type option \<Rightarrow> unit io" where
  "apply_media rt p m =
     (case m of None \<Rightarrow> return_io () | Some t \<Rightarrow> perform rt (OnPage p (EmulateMediaType t)))"

definition apply_credentials :: "runtime \<Rightarrow> nat \<Rightarrow> credentials option \<Rightarrow> unit io" where
  "apply_credentials rt p c =
     (case c of None \<Rightarrow> return_io () | Some k \<Rightarrow> perform rt (OnPage p (Authenticate k)))"

text \<open>The statements of \<^verbatim>\<open>createPage\<close> that follow \<^verbatim>\<open>browser.newPage()\<close>.\<close>

definition configure :: "runtime \<Rightarrow> nat \<Rightarrow> string \<Rightarrow> pageOptions \<Rightarrow> unit io" where
  "configure rt p url po =
     bind_io (page_on_error p) (\<lambda>_.
     bind_io (apply_headers rt p (headers po)) (\<lambda>_.
     bind_io (apply_media rt p (emulateMediaType po)) (\<lambda>_.
     bind_io (apply_credentials rt p (credentials po)) (\<lambda>_.
     bind_io (perform rt (OnPage p (SetCacheEnabled False))) (\<lambda>_.
     perform rt (OnPage p (Goto url (nav_options po))))))))"

text \<open>The \<^verbatim>\<open>catch (e)\<close> block of \<^verbatim>\<open>createPage\<close>; \<open>page\<close> is the variable as it stands when
  the error is caught.\<close>

definition createPage_catch :: "runtime \<Rightarrow> nat option \<Rightarrow> error \<Rightarrow> nat io" where
  "createPage_catch rt page e =
     bind_io (log_error e) (\<lambda>_. bind_io (closePage rt page) (\<lambda>_. throw_io e))"

definition createPage :: "runtime \<Rightarrow> string \<Rightarrow> pageOptions \<Rightarrow> nat io" where
  "createPage rt url po w =
     (case newPage rt w of
        (Inl e, w1) \<Rightarrow> createPage_catch rt None e w1
      | (Inr p, w1) \<Rightarrow>
          (case configure rt p url po w1 of
             (Inl e, w2) \<Rightarrow> createPage_catch rt (Some p) e w2
           | (Inr _, w2) \<Rightarrow> (Inr p, w2)))"

text \<open>\<^verbatim>\<open>try { page = await this.createPage(..); body(page) } finally { closePage(page) }\<close>:
  \<open>page\<close> is assigned only when \<^verbatim>\<open>createPage\<close> returns.\<close>

definition with_created :: "runtime \<Rightarrow> nat io \<Rightarrow> (nat \<Rightarrow> 'a io) \<Rightarrow> 'a io" where
  "with_created rt create_page body w =
     (case create_page w of
        (Inl e, w1) \<Rightarrow> finally_io (throw_io e) (closePage rt None) w1
      | (Inr p, w1) \<Rightarrow> finally_io (body p) (closePage rt (Some p)) w1)"

definition page_content :: "runtime \<Rightarrow> nat \<Rightarrow> string io" where
  "page_content rt p = bind_io (perform rt (OnPage p Content)) (\<lambda>_. return_io (content_value rt))"

definition page_pdf :: "runtime \<Rightarrow> nat \<Rightarrow> pdfOptions \<Rightarrow> buffer io" where
  "page_pdf rt p po = bind_io (perform rt (OnPage p (Pdf po))) (\<lambda>_. return_io (pdf_value rt))"

definition page_screenshot :: "runtime \<Rightarrow> nat \<Rightarrow> capture_options \<Rightarrow> buffer io" where
  "page_screenshot rt p co =
     bind_io (perform rt (OnPage p (Screenshot co))) (\<lambda>_. return_io (screenshot_value rt))"

definition html :: "runtime \<Rightarrow> string \<Rightarrow> pageOptions \<Rightarrow> string io" where
  "html rt url po = with_created rt (createPage rt url po) (\<lambda>p. page_content rt p)"

text \<open>\<^verbatim>\<open>pageOptions.emulateMediaType || 'print'\<close>\<close>

definition pdf_pageOptions :: "pageOptions \<Rightarrow> pageOptions" where
  "pdf_pageOptions po =
     po\<lparr>emulateMediaType := Some (case emulateMediaType po of None \<Rightarrow> Print | Some m \<Rightarrow> m)\<rparr>"

definition pdf :: "runtime \<Rightarrow> string \<Rightarrow> pageOptions \<Rightarrow> pdfOptions \<Rightarrow> buffer io" where
  "pdf rt url po pdfo =
     with_created rt (createPage rt url (pdf_pageOptions po)) (\<lambda>p. page_pdf rt p pdfo)"

text \<open>\<^verbatim>\<open>const { animationTimeout, ...options } = screenshotOptions\<close> and the object passed
  to \<^verbatim>\<open>page.screenshot\<close>.\<close>

definition capture_of :: "screenshotOptions \<Rightarrow> capture_options" where
  "capture_of so =
     \<lparr>imgtype = imgtype so, quality = (if imgtype so = Png then None else quality so)\<rparr>"

definition screenshot_body ::
  "runtime \<Rightarrow> pageViewportOptions \<Rightarrow> screenshotOptions \<Rightarrow> nat \<Rightarrow> buffer io" where
  "screenshot_body rt vo so p =
     bind_io (perform rt (OnPage p (SetViewport vo))) (\<lambda>_.
     bind_io (if animationTimeout so > 0
              then perform rt (OnPage p (WaitForAnimations so (animationTimeout so)))
              else return_io ()) (\<lambda>_.
     page_screenshot rt p (capture_of so)))"

definition screenshot ::
  "runtime \<Rightarrow> string \<Rightarrow> pageOptions \<Rightarrow> pageViewportOptions \<Rightarrow> screenshotOptions
     \<Rightarrow> (image_type \<times> buffer) io" where
  "screenshot rt url po vo so =
     with_created rt (createPage rt url po)
       (\<lambda>p. bind_io (screenshot_body rt vo so p) (\<lambda>b. return_io (imgtype so, b)))"

section \<open>The renderer with \<^verbatim>\<open>withPage\<close>\<close>

text \<open>\<^verbatim>\<open>closePage\<close>: only \<^verbatim>\<open>page.close()\<close> is inside the \<^verbatim>\<open>try\<close>; the catch block logs.\<close>

definition closePage2 :: "runtime \<Rightarrow> nat option \<Rightarrow> unit io" where
  "closePage2 rt page w =
     (case page of
        None \<Rightarrow> (Inr (), w)
      | Some p \<Rightarrow>
          if isClosed p w then (Inr (), w)
          else (case page_close rt p w of (Inl e, w') \<Rightarrow> log_error e w' | (Inr _, w') \<Rightarrow> (Inr (), w')))"

text \<open>\<^verbatim>\<open>createPage\<close> without a \<^verbatim>\<open>try\<close>: an error leaves the function as it is raised.\<close>

definition createPage2 :: "runtime \<Rightarrow> string \<Rightarrow> pageOptions \<Rightarrow> nat io" where
  "createPage2 rt url po =
     bind_io (newPage rt) (\<lambda>p. bind_io (configure rt p url po) (\<lambda>_. return_io p))"

definition withPage :: "runtime \<Rightarrow> (nat \<Rightarrow> 'a io) \<Rightarrow> string \<Rightarrow> pageOptions \<Rightarrow> 'a io" where
  "withPage rt fn url po w =
     (case createPage2 rt url po w of
        (Inl e, w1) \<Rightarrow> finally_io (throw_io e) (closePage2 rt None) w1
      | (Inr p, w1) \<Rightarrow> finally_io (fn p) (closePage2 rt (Some p)) w1)"

text \<open>\<^verbatim>\<open>html\<close> navigates a second time, passing the whole \<^verbatim>\<open>pageOptions\<close>; the engine reads
  the navigation options of it.\<close>

definition html2 :: "runtime \<Rightarrow> string \<Rightarrow> pageOptions \<Rightarrow> string io" where
  "html2 rt url po =
     withPage rt
       (\<lambda>p. bind_io (perform rt (OnPage p (Goto url (nav_options po)))) (\<lambda>_. page_content rt p))
       url po"

definition pdf2 :: "runtime \<Rightarrow> string \<Rightarrow> pageOptions \<Rightarrow> pdfOptions \<Rightarrow> buffer io" where
  "pdf2 rt url po pdfo = withPage rt (\<lambda>p. page_pdf rt p pdfo) url (pdf_pageOptions po)"

definition screenshot2 ::
  "runtime \<Rightarrow> string \<Rightarrow> pageOptions \<Rightarrow> pageViewportOptions \<Rightarrow> screenshotOptions \<Rightarrow> buffer io" where
  "screenshot2 rt url po vo so = withPage rt (\<lambda>p. screenshot_body rt vo so p) url po"

section \<open>Shutdown\<close>

record renderer =
  chromeTmpDataDir :: "string option"

definition browser_close :: "runtime \<Rightarrow> unit io" where
  "browser_close rt w =
     (case perform rt BrowserClose w of
        (Inl e, w') \<Rightarrow> (Inl e, w')
      | (Inr _, w') \<Rightarrow> (Inr (), w'\<lparr>browser_open := False\<rparr>))"

text \<open>\<^verbatim>\<open>fs.removeSync(dir)\<close>: when it returns, \<open>dir\<close> and everything below it are gone.\<close>

definition removeSync :: "runtime \<Rightarrow> string \<Rightarrow> unit io" where
  "removeSync rt d w =
     (case perform rt (RemoveSync d) w of
        (Inl e, w') \<Rightarrow> (Inl e, w')
      | (Inr _, w') \<Rightarrow>
          (Inr (), w'\<lparr>paths := filter (\<lambda>p. \<not> (p = d \<or> prefix (d @ ''/'') p)) (paths w')\<rparr>))"

text \<open>\<^verbatim>\<open>if (this.chromeTmpDataDir)\<close>: \<^verbatim>\<open>null\<close> and the empty string are falsy.\<close>

definition close :: "runtime \<Rightarrow> renderer \<Rightarrow> unit io" where
  "close rt r =
     bind_io (browser_close rt) (\<lambda>_.
       case chromeTmpDataDir r of
         None \<Rightarrow> return_io ()
       | Some d \<Rightarrow> if d = [] then return_io () else removeSync rt d)"

text \<open>The renderer with \<open>withPage\<close> records no directory; its \<open>close\<close> closes the browser.\<close>

definition close2 :: "runtime \<Rightarrow> unit io" where
  "close2 rt = browser_close rt"

section \<open>Launching the engine\<close>

text \<open>\<open>create\<close> changes the options object it is given, so objects and arrays live in a
  store and are passed by reference: \<open>args\<close> of an options object is the reference of its
  array, if it has one; \<open>rest\<close> are the other launch options.\<close>

record launchOptions =
  args :: "nat option"
  rest :: "(string \<times> string) list"

record store =
  objects :: "nat \<Rightarrow> launchOptions option"
  arrays :: "nat \<Rightarrow> string list option"
  next_ref :: nat

text \<open>What \<^verbatim>\<open>puppeteer.launch\<close> receives: the contents of \<open>args\<close> at the time of the call,
  the other options and \<open>headless\<close>.\<close>

record launch_config =
  launch_args :: "string list"
  launch_rest :: "(string \<times> string) list"
  headless :: string

text \<open>The launcher: \<^verbatim>\<open>puppeteer.launch\<close> throws (\<open>Inl\<close>) or gives a browser, of which \<open>create\<close>
  reads \<^verbatim>\<open>browser.process()?.spawnargs\<close> (\<open>None\<close>: there is no process).\<close>

type_synonym launcher = "launch_config \<Rightarrow> error + string list option"

definition obj_at :: "store \<Rightarrow> nat \<Rightarrow> launchOptions" where
  "obj_at s a = (case objects s a of Some ob \<Rightarrow> ob | None \<Rightarrow> \<lparr>args = None, rest = []\<rparr>)"

definition array_at :: "store \<Rightarrow> nat \<Rightarrow> string list" where
  "array_at s r = (case arrays s r of Some xs \<Rightarrow> xs | None \<Rightarrow> [])"

definition new_object :: "launchOptions \<Rightarrow> store \<Rightarrow> nat \<times> store" where
  "new_object ob s =
     (next_ref s, s\<lparr>objects := (objects s)(next_ref s \<mapsto> ob), next_ref := Suc (next_ref s)\<rparr>)"

definition new_array :: "string list \<Rightarrow> store \<Rightarrow> nat \<times> store" where
  "new_array xs s =
     (next_ref s, s\<lparr>arrays := (arrays s)(next_ref s \<mapsto> xs), next_ref := Suc (next_ref s)\<rparr>)"

definition set_args :: "nat \<Rightarrow> nat \<Rightarrow> store \<Rightarrow> store" where
  "set_args a r s = s\<lparr>objects := (objects s)(a \<mapsto> (obj_at s a)\<lparr>args := Some r\<rparr>)\<rparr>"

definition push :: "nat \<Rightarrow> string \<Rightarrow> store \<Rightarrow> store" where
  "push r x s = s\<lparr>arrays := (arrays s)(r \<mapsto> array_at s r @ [x])\<rparr>"

definition fixed_flags :: "string list" where
  "fixed_flags = [''--no-sandbox'', ''--disable-web-security'', ''--disable-dev-shm-usage'',
     ''--disk-cache-size=0'', ''--aggressive-cache-discard'']"

text \<open>The loop over \<open>chromeSpawnArgs\<close>: the first argument that starts with
  \<^verbatim>\<open>--user-data-dir=\<close>, with that prefix taken off.\<close>

fun find_data_dir :: "string list \<Rightarrow> string option" where
  "find_data_dir [] = None"
| "find_data_dir (a # as) =
     (if prefix ''--user-data-dir='' a then Some (drop (length ''--user-data-dir='') a)
      else find_data_dir as)"

text \<open>The default parameter \<^verbatim>\<open>options = {}\<close>: without an argument a new object is made.\<close>

definition options_param :: "nat option \<Rightarrow> store \<Rightarrow> nat \<times> store" where
  "options_param opt s =
     (case opt of None \<Rightarrow> new_object \<lparr>args = None, rest = []\<rparr> s | Some a \<Rightarrow> (a, s))"

definition launch_and_wrap ::
  "launcher \<Rightarrow> launch_config \<Rightarrow> launch_config \<times> (error + renderer)" where
  "launch_and_wrap launch cfg =
     (cfg, case launch cfg of
             Inl e \<Rightarrow> Inl e
           | Inr sp \<Rightarrow>
               Inr \<lparr>chromeTmpDataDir = find_data_dir (case sp of None \<Rightarrow> [] | Some xs \<Rightarrow> xs)\<rparr>)"

text \<open>\<open>create\<close> of the renderer with the temporary data directory: \<open>args\<close> is created when
  absent, then the five flags are pushed onto the array in place.\<close>

definition create ::
  "launcher \<Rightarrow> nat option \<Rightarrow> store \<Rightarrow> (launch_config \<times> (error + renderer)) \<times> store" where
  "create launch opt s =
     (let (a, s0) = options_param opt s;
          (r, s1) = (case args (obj_at s0 a) of
                       None \<Rightarrow> (let (r, s') = new_array [] s0 in (r, set_args a r s'))
                     | Some r \<Rightarrow> (r, s0));
          s2 = fold (push r) fixed_flags s1;
          cfg = \<lparr>launch_args = array_at s2 r, launch_rest = rest (obj_at s2 a),
                  headless = ''new''\<rparr>
      in (launch_and_wrap launch cfg, s2))"

text \<open>\<open>create\<close> of the renderer with \<open>withPage\<close>: \<open>args\<close> becomes a new array, the old
  contents followed by the five flags; no directory is recorded.\<close>

definition create2 ::
  "launcher \<Rightarrow> nat option \<Rightarrow> store \<Rightarrow> (launch_config \<times> (error + unit)) \<times> store" where
  "create2 launch opt s =
     (let (a, s0) = options_param opt s;
          old = (case args (obj_at s0 a) of None \<Rightarrow> [] | Some r \<Rightarrow> array_at s0 r);
          (r, s1) = new_array (old @ fixed_flags) s0;
          s2 = set_args a r s1;
          cfg = \<lparr>launch_args = array_at s2 r, launch_rest = rest (obj_at s2 a),
                  headless = ''shell''\<rparr>
      in ((cfg, case launch cfg of Inl e \<Rightarrow> Inl e | Inr sp \<Rightarrow> Inr ()), s2))"

text \<open>The arguments the caller supplied: the contents of \<open>args\<close> before the call.\<close>

definition caller_args :: "nat option \<Rightarrow> store \<Rightarrow> string list" where
  "caller_args opt s =
     (case opt of
        None \<Rightarrow> []
      | Some a \<Rightarrow> (case args (obj_at s a) of None \<Rightarrow> [] | Some r \<Rightarrow> array_at s r))"

section \<open>Observations on a call\<close>

fun is_close :: "call \<Rightarrow> bool" where
  "is_close (OnPage p ClosePage) = True"
| "is_close c = False"

definition close_attempts :: "call list \<Rightarrow> nat" where
  "close_attempts cs = length (filter is_close cs)"

text \<open>The engine calls made between the world \<open>w\<close> and the later world \<open>w'\<close>.\<close>

definition new_calls :: "world \<Rightarrow> world \<Rightarrow> call list" where
  "new_calls w w' = drop (length (trace w)) (trace w')"

text \<open>Page numbers are handed out in order, so a closed page has a number below
  \<open>pages_opened\<close>.\<close>

definition wf_world :: "world \<Rightarrow> bool" where
  "wf_world w = (\<forall>p \<in> set (pages_closed w). p < pages_opened w)"

definition close_never_rejected :: "runtime \<Rightarrow> bool" where
  "close_never_rejected rt = (\<forall>t p. \<not> rejects rt (t @ [OnPage p ClosePage]))"

text \<open>Two runtimes that differ at most in whether a \<^verbatim>\<open>page.close()\<close> is rejected.\<close>

definition same_but_close :: "runtime \<Rightarrow> runtime \<Rightarrow> bool" where
  "same_but_close rt rt' =
     (JSON_parse rt' = JSON_parse rt \<and> content_value rt' = content_value rt \<and>
      pdf_value rt' = pdf_value rt \<and> screenshot_value rt' = screenshot_value rt \<and>
      (\<forall>t c. \<not> is_close c \<longrightarrow> rejects rt' (t @ [c]) = rejects rt (t @ [c])))"

text \<open>The completion of a call is not the rejection of a \<^verbatim>\<open>page.close()\<close>.\<close>

fun is_close_error :: "error \<Rightarrow> bool" where
  "is_close_error (Rejected c) = is_close c"
| "is_close_error (SyntaxError s) = False"
| "is_close_error LaunchError = False"

definition not_close_error :: "error + 'a \<Rightarrow> bool" where
  "not_close_error r = (case r of Inl e \<Rightarrow> \<not> is_close_error e | Inr x \<Rightarrow> True)"

text \<open>The completions of the three operations, of both renderers.\<close>

definition render_results ::
  "runtime \<Rightarrow> string \<Rightarrow> pageOptions \<Rightarrow> pdfOptions \<Rightarrow> pageViewportOptions \<Rightarrow> screenshotOptions
     \<Rightarrow> world \<Rightarrow> (error + string) \<times> (error + buffer) \<times> (error + image_type \<times> buffer)
        \<times> (error + string) \<times> (error + buffer) \<times> (error + buffer)" where
  "render_results rt url po pdfo vo so w =
     (fst (html rt url po w), fst (pdf rt url po pdfo w), fst (screenshot rt url po vo so w),
      fst (html2 rt url po w), fst (pdf2 rt url po pdfo w), fst (screenshot2 rt url po vo so w))"

text \<open>An action that does not complete with the rejection of a \<^verbatim>\<open>page.close()\<close>.\<close>

definition clean :: "'a io \<Rightarrow> bool" where
  "clean m = (\<forall>w. not_close_error (fst (m w)))"

text \<open>An action on page \<open>p\<close> that opens no page and makes no close call; the engine may
  close \<open>p\<close> during it.\<close>

definition quiet :: "nat \<Rightarrow> 'a io \<Rightarrow> bool" where
  "quiet p m = (\<forall>w r w'. m w = (r, w') \<longrightarrow>
      pages_opened w' = pages_opened w \<and>
      (pages_closed w' = pages_closed w \<or>
       p \<notin> set (pages_closed w) \<and> pages_closed w' = pages_closed w @ [p]) \<and>
      (\<exists>cs. trace w' = trace w @ cs \<and> close_attempts cs = 0))"

definition settled :: "runtime \<Rightarrow> world \<Rightarrow> world \<Rightarrow> bool" where
  "settled rt w w' =
     (pages_opened w \<le> pages_opened w' \<and>
      (\<exists>cs. trace w' = trace w @ cs \<and>
         close_attempts cs \<le> pages_opened w' - pages_opened w \<and>
         (close_attempts cs = 0 \<longrightarrow>
            pages_closed w' = pages_closed w @ [pages_opened w ..< pages_opened w'])) \<and>
      (close_never_rejected rt \<longrightarrow>
         pages_closed w' = pages_closed w @ [pages_opened w ..< pages_opened w']))"

text \<open>\<open>all_closed\<close>: the pages closed since \<open>w\<close> are exactly the pages opened since \<open>w\<close>, so as
  many were closed as were opened. \<open>close_unless_closed\<close>: \<^verbatim>\<open>page.close()\<close> was called at most
  once for each page opened since \<open>w\<close>, and where it was not called the pages opened are
  closed already.\<close>

definition all_closed :: "world \<Rightarrow> world \<Rightarrow> bool" where
  "all_closed w w' =
     (pages_closed w' = pages_closed w @ [pages_opened w ..< pages_opened w'] \<and>
      pages_opened w' - pages_opened w = length (pages_closed w') - length (pages_closed w))"

definition close_unless_closed :: "world \<Rightarrow> world \<Rightarrow> bool" where
  "close_unless_closed w w' =
     (prefix (trace w) (trace w') \<and>
      close_attempts (new_calls w w') \<le> pages_opened w' - pages_opened w \<and>
      (close_attempts (new_calls w w') = 0 \<longrightarrow> all_closed w w'))"

definition no_page_leak :: "runtime \<Rightarrow> world \<Rightarrow> world \<Rightarrow> bool" where
  "no_page_leak rt w w' =
     (close_unless_closed w w' \<and> (close_never_rejected rt \<longrightarrow> all_closed w w'))"

text \<open>Two actions that complete alike and make the same calls from worlds with the same
  trace and the same number of pages opened.\<close>

definition alike :: "world \<Rightarrow> world \<Rightarrow> bool" where
  "alike w v = (trace w = trace v \<and> pages_opened w = pages_opened v)"

definition sim :: "'a io \<Rightarrow> 'a io \<Rightarrow> bool" where
  "sim m n = (\<forall>w v. alike w v \<longrightarrow> fst (m w) = fst (n v) \<and> alike (snd (m w)) (snd (n v)))"

section \<open>The sequence of engine calls of a render call\<close>

text \<open>The configuration steps in their order: extra headers (if supplied and parsed), media
  type (if supplied), credentials (if supplied), cache off, navigation.\<close>

definition headers_calls :: "runtime \<Rightarrow> nat \<Rightarrow> string option \<Rightarrow> call list" where
  "headers_calls rt p hs =
     (case hs of
        None \<Rightarrow> []
      | Some h \<Rightarrow>
          if h = [] then []
          else (case JSON_parse rt h of None \<Rightarrow> [] | Some j \<Rightarrow> [OnPage p (SetExtraHTTPHeaders j)]))"

definition media_calls :: "nat \<Rightarrow> media_type option \<Rightarrow> call list" where
  "media_calls p m = (case m of None \<Rightarrow> [] | Some t \<Rightarrow> [OnPage p (EmulateMediaType t)])"

definition credentials_calls :: "nat \<Rightarrow> credentials option \<Rightarrow> call list" where
  "credentials_calls p c = (case c of None \<Rightarrow> [] | Some k \<Rightarrow> [OnPage p (Authenticate k)])"

definition config_calls :: "runtime \<Rightarrow> nat \<Rightarrow> string \<Rightarrow> pageOptions \<Rightarrow> call list" where
  "config_calls rt p url po =
     OnPage p OnError # headers_calls rt p (headers po) @ media_calls p (emulateMediaType po) @
     credentials_calls p (credentials po) @
     [OnPage p (SetCacheEnabled False), OnPage p (Goto url (nav_options po))]"

definition screenshot_calls ::
  "nat \<Rightarrow> pageViewportOptions \<Rightarrow> screenshotOptions \<Rightarrow> call list" where
  "screenshot_calls p vo so =
     OnPage p (SetViewport vo) #
     (if animationTimeout so > 0 then [OnPage p (WaitForAnimations so (animationTimeout so))]
      else []) @
     [OnPage p (Screenshot (capture_of so))]"

text \<open>An action whose engine calls are an initial part of \<open>plan\<close>, and all of it when the
  action returns.\<close>

definition follows :: "call list \<Rightarrow> 'a io \<Rightarrow> bool" where
  "follows plan m =
     (\<forall>w r w'. m w = (r, w') \<longrightarrow>
        (\<exists>k\<le>length plan. trace w' = trace w @ take k plan \<and>
           (\<forall>x. r = Inr x \<longrightarrow> k = length plan)))"

text \<open>A render call on page \<open>p\<close>: an initial part of \<open>plan\<close> (all of it when the call
  returns a value), then at most the closing of the page.\<close>

definition runs_plan :: "call list \<Rightarrow> nat \<Rightarrow> world \<Rightarrow> world \<Rightarrow> error + 'a \<Rightarrow> bool" where
  "runs_plan plan p w w' r =
     (\<exists>k\<le>length plan. \<exists>closing.
        trace w' = trace w @ take k plan @ closing \<and>
        (closing = [] \<or> closing = [OnPage p ClosePage]) \<and>
        (\<forall>x. r = Inr x \<longrightarrow> k = length plan))"

text \<open>The position of each engine call in a render call.\<close>

fun step_rank :: "call \<Rightarrow> nat" where
  "step_rank NewPage = 0"
| "step_rank (OnPage p OnError) = 1"
| "step_rank (OnPage p (SetExtraHTTPHeaders j)) = 2"
| "step_rank (OnPage p (EmulateMediaType m)) = 3"
| "step_rank (OnPage p (Authenticate c)) = 4"
| "step_rank (OnPage p (SetCacheEnabled b)) = 5"
| "step_rank (OnPage p (Goto u n)) = 6"
| "step_rank (OnPage p Content) = 7"
| "step_rank (OnPage p (Pdf po)) = 7"
| "step_rank (OnPage p (SetViewport vo)) = 7"
| "step_rank (OnPage p (WaitForAnimations so t)) = 8"
| "step_rank (OnPage p (Screenshot co)) = 9"
| "step_rank (OnPage p ClosePage) = 10"
| "step_rank BrowserClose = 11"
| "step_rank (RemoveSync d) = 12"

text \<open>The calls an operation makes on the page that \<open>createPage\<close> returned.\<close>

definition is_extraction :: "call \<Rightarrow> bool" where
  "is_extraction c = (7 \<le> step_rank c \<and> step_rank c \<le> 9)"

fun is_settle :: "call \<Rightarrow> bool" where
  "is_settle (OnPage p (WaitForAnimations so t)) = True"
| "is_settle c = False"

fun is_capture :: "call \<Rightarrow> bool" where
  "is_capture (OnPage p (Screenshot co)) = True"
| "is_capture c = False"

text \<open>PNG is the lossless format; the engine encodes JPEG and WebP with a quality.\<close>

fun lossless :: "image_type \<Rightarrow> bool" where
  "lossless Png = True"
| "lossless Jpeg = False"
| "lossless Webp = False"





text \<open>The media types applied and the capture options used, in the order of the calls.\<close>

fun media_types :: "call list \<Rightarrow> media_type list" where
  "media_types [] = []"
| "media_types (OnPage p (EmulateMediaType m) # cs) = m # media_types cs"
| "media_types (c # cs) = media_types cs"

fun captures :: "call list \<Rightarrow> capture_options list" where
  "captures [] = []"
| "captures (OnPage p (Screenshot co) # cs) = co # captures cs"
| "captures (c # cs) = captures cs"

text \<open>The media type of a PDF request: \<open>print\<close> unless the caller set one.\<close>

definition effective_media :: "pageOptions \<Rightarrow> media_type" where
  "effective_media po = (case emulateMediaType po of None \<Rightarrow> Print | Some m \<Rightarrow> m)"

text \<open>The engine calls of one screenshot call.\<close>

definition screenshot_trace ::
  "runtime \<Rightarrow> string \<Rightarrow> pageOptions \<Rightarrow> pageViewportOptions \<Rightarrow> screenshotOptions \<Rightarrow> world
     \<Rightarrow> call list" where
  "screenshot_trace rt url po vo so w = new_calls w (snd (screenshot rt url po vo so w))"

text \<open>The worlds in which the three operations of the renderer with the catch block end.\<close>

definition render_worlds ::
  "runtime \<Rightarrow> string \<Rightarrow> pageOptions \<Rightarrow> pdfOptions \<Rightarrow> pageViewportOptions \<Rightarrow> screenshotOptions
     \<Rightarrow> world \<Rightarrow> world list" where
  "render_worlds rt url po pdfo vo so w =
     [snd (html rt url po w), snd (pdf rt url po pdfo w), snd (screenshot rt url po vo so w)]"

section \<open>Concrete inputs\<close>

definition example_parse :: "string \<Rightarrow> json option" where
  "example_parse s = (if s = ''{}'' then Some (JObj []) else None)"

definition rt_ok :: runtime where
  "rt_ok = \<lparr>rejects = (\<lambda>t. False), closes_page = (\<lambda>t. False), JSON_parse = example_parse,
     content_value = ''<html></html>'', pdf_value = [37, 80, 68, 70],
     screenshot_value = [137, 80, 78, 71]\<rparr>"

fun is_goto :: "call \<Rightarrow> bool" where
  "is_goto (OnPage p (Goto u n)) = True"
| "is_goto c = False"

text \<open>An engine that rejects exactly the calls that satisfy \<open>P\<close>.\<close>

definition last_is :: "(call \<Rightarrow> bool) \<Rightarrow> call list \<Rightarrow> bool" where
  "last_is P t = (case rev t of [] \<Rightarrow> False | c # _ \<Rightarrow> P c)"

definition rt_rejecting :: "(call \<Rightarrow> bool) \<Rightarrow> runtime" where
  "rt_rejecting P = rt_ok\<lparr>rejects := last_is P\<rparr>"

definition rt_close_fails :: runtime where
  "rt_close_fails = rt_rejecting is_close"

definition rt_goto_fails :: runtime where
  "rt_goto_fails = rt_rejecting is_goto"

text \<open>An engine whose page goes away during the navigation, which is rejected.\<close>

definition rt_page_crashes :: runtime where
  "rt_page_crashes = rt_ok\<lparr>rejects := last_is is_goto, closes_page := last_is is_goto\<rparr>"

definition rt_goto_and_close_fail :: runtime where
  "rt_goto_and_close_fail = rt_rejecting (\<lambda>c. is_goto c \<or> is_close c)"

definition w0 :: world where
  "w0 = \<lparr>trace = [], pages_opened = 0, pages_closed = [], console = [],
     browser_open = True, paths = []\<rparr>"

definition po0 :: pageOptions where
  "po0 = \<lparr>timeout = None, waitUntil = None, credentials = None, emulateMediaType = None,
     headers = None\<rparr>"

definition po_full :: pageOptions where
  "po_full = \<lparr>timeout = Some 30000, waitUntil = None,
     credentials = Some \<lparr>username = ''u'', password = ''p''\<rparr>,
     emulateMediaType = Some Screen, headers = Some ''{}''\<rparr>"

definition po_bad_headers :: pageOptions where
  "po_bad_headers = po0\<lparr>headers := Some ''{''\<rparr>"

definition po_empty_headers :: pageOptions where
  "po_empty_headers = po0\<lparr>headers := Some ''''\<rparr>"

definition vo0 :: pageViewportOptions where
  "vo0 = \<lparr>width = 800, height = 600\<rparr>"

definition so0 :: screenshotOptions where
  "so0 = \<lparr>imgtype = Png, quality = None, animationTimeout = 0\<rparr>"

definition so_png :: screenshotOptions where
  "so_png = \<lparr>imgtype = Png, quality = Some 80, animationTimeout = 0\<rparr>"

definition so_jpeg :: screenshotOptions where
  "so_jpeg = \<lparr>imgtype = Jpeg, quality = Some 80, animationTimeout = 500\<rparr>"

text \<open>A store with the caller's options object at 0 and its array at 1, and one with an
  options object that has no \<open>args\<close>.\<close>

definition s_args :: store where
  "s_args = \<lparr>objects = [0 \<mapsto> \<lparr>args = Some 1, rest = [(''executablePath'', ''/usr/bin/chromium'')]\<rparr>],
     arrays = [1 \<mapsto> [''--lang=en'']], next_ref = 2\<rparr>"

definition s_noargs :: store where
  "s_noargs = \<lparr>objects = [0 \<mapsto> \<lparr>args = None, rest = []\<rparr>], arrays = Map.empty, next_ref = 1\<rparr>"

definition launch_ok :: launcher where
  "launch_ok cfg = Inr (Some (''/usr/bin/chromium'' # launch_args cfg @ [''--user-data-dir=/tmp/pptr'']))"

definition launch_fails :: launcher where
  "launch_fails cfg = Inl LaunchError"

definition w_dir :: world where
  "w_dir = w0\<lparr>paths := [''/tmp/pptr'', ''/tmp/pptr/Default'', ''/tmp/other'']\<rparr>"


section \<open>Evaluation\<close>

lemmas renderer_defs =
  may_close.simps closed_after_def perform_def bind_io_def return_io_def throw_io_def finally_io_def newPage_def isClosed_def
  page_close_def log_error_def page_on_error_def closePage_def nav_options_def
  apply_headers_def apply_media_def apply_credentials_def configure_def createPage_catch_def
  createPage_def with_created_def page_content_def page_pdf_def page_screenshot_def html_def
  pdf_pageOptions_def pdf_def capture_of_def screenshot_body_def screenshot_def
  closePage2_def createPage2_def withPage_def html2_def pdf2_def screenshot2_def

lemmas example_defs =
  example_parse_def rt_ok_def last_is_def rt_rejecting_def rt_close_fails_def rt_goto_fails_def
  rt_goto_and_close_fail_def rt_page_crashes_def w0_def po0_def po_full_def po_bad_headers_def po_empty_headers_def
  vo0_def so0_def so_png_def so_jpeg_def

section \<open>Pages opened and pages closed\<close>

lemma closed_after_other [simp]:
  "closed_after rt t NewPage cl = cl"
  "closed_after rt t (OnPage p ClosePage) cl = cl"
  "closed_after rt t BrowserClose cl = cl"
  "closed_after rt t (RemoveSync d) cl = cl"
  by (simp_all add: closed_after_def)

lemma close_attempts_append [simp]:
  "close_attempts (xs @ ys) = close_attempts xs + close_attempts ys"
  by (simp add: close_attempts_def)

lemma close_attempts_Nil [simp]: "close_attempts [] = 0"
  by (simp add: close_attempts_def)

lemma quietI:
  assumes "\<And>w r w'. m w = (r, w') \<Longrightarrow>
      pages_opened w' = pages_opened w \<and>
      (pages_closed w' = pages_closed w \<or>
       p \<notin> set (pages_closed w) \<and> pages_closed w' = pages_closed w @ [p]) \<and>
      (\<exists>cs. trace w' = trace w @ cs \<and> close_attempts cs = 0)"
  shows "quiet p m"
  using assms unfolding quiet_def by blast

lemma quietD:
  assumes "quiet p m" and "m w = (r, w')"
  shows "pages_opened w' = pages_opened w"
    and "pages_closed w' = pages_closed w \<or>
         p \<notin> set (pages_closed w) \<and> pages_closed w' = pages_closed w @ [p]"
    and "\<exists>cs. trace w' = trace w @ cs \<and> close_attempts cs = 0"
  using assms unfolding quiet_def by blast+

lemma quiet_bind:
  assumes m: "quiet p m" and f: "\<And>x. quiet p (f x)"
  shows "quiet p (bind_io m f)"
proof (rule quietI)
  fix w r w'
  assume run: "bind_io m f w = (r, w')"
  obtain r1 w1 where m1: "m w = (r1, w1)" by (cases "m w")
  note q1 = quietD[OF m m1]
  show "pages_opened w' = pages_opened w \<and>
      (pages_closed w' = pages_closed w \<or>
       p \<notin> set (pages_closed w) \<and> pages_closed w' = pages_closed w @ [p]) \<and>
      (\<exists>cs. trace w' = trace w @ cs \<and> close_attempts cs = 0)"
  proof (cases r1)
    case (Inl e)
    with run m1 have "w' = w1" by (simp add: bind_io_def)
    with q1 show ?thesis by simp
  next
    case (Inr x)
    with run m1 have f1: "f x w1 = (r, w')" by (simp add: bind_io_def)
    note q2 = quietD[OF f f1]
    from q1(3) obtain cs where cs: "trace w1 = trace w @ cs" "close_attempts cs = 0" by blast
    from q2(3) obtain ds where ds: "trace w' = trace w1 @ ds" "close_attempts ds = 0" by blast
    have "trace w' = trace w @ (cs @ ds) \<and> close_attempts (cs @ ds) = 0"
      using cs ds by simp
    then have t: "\<exists>cs. trace w' = trace w @ cs \<and> close_attempts cs = 0" by (rule exI)
    have c: "pages_closed w' = pages_closed w \<or>
       p \<notin> set (pages_closed w) \<and> pages_closed w' = pages_closed w @ [p]"
      using q1(2) q2(2) by auto
    from t c q1(1) q2(1) show ?thesis by simp
  qed
qed

lemma quiet_return [simp]: "quiet p (return_io x)"
  by (rule quietI) (auto simp: return_io_def)

lemma quiet_throw [simp]: "quiet p (throw_io e)"
  by (rule quietI) (auto simp: throw_io_def)

lemma quiet_perform: "quiet p (perform rt (OnPage p c))" if "c \<noteq> ClosePage"
  using that
  by (intro quietI, cases c)
     (auto simp: perform_def Let_def close_attempts_def closed_after_def)

lemma quiet_page_on_error [simp]: "quiet p (page_on_error p)"
  by (rule quietI) (auto simp: page_on_error_def close_attempts_def)

lemma quiet_log_error [simp]: "quiet p (log_error e)"
  by (rule quietI) (auto simp: log_error_def close_attempts_def)

lemma quiet_configure: "quiet p (configure rt p url po)"
  unfolding configure_def apply_headers_def apply_media_def apply_credentials_def
  by (intro quiet_bind quiet_perform quiet_page_on_error)
     (auto simp: quiet_perform split: option.splits)

lemma quiet_page_content: "quiet p (page_content rt p)"
  unfolding page_content_def by (intro quiet_bind quiet_perform) auto

lemma quiet_page_pdf: "quiet p (page_pdf rt p o')"
  unfolding page_pdf_def by (intro quiet_bind quiet_perform) auto

lemma quiet_screenshot_body:
  "quiet p (bind_io (screenshot_body rt vo so p) (\<lambda>b. return_io (imgtype so, b)))"
  unfolding screenshot_body_def page_screenshot_def
  by (intro quiet_bind quiet_perform) (auto simp: quiet_perform)

lemma closePage_None [simp]: "closePage rt None w = (Inr (), w)"
  by (simp add: closePage_def)

lemma newPage_cases:
  assumes "newPage rt w = (r, w')"
  shows "trace w' = trace w @ [NewPage]" and "pages_closed w' = pages_closed w"
    and "(\<exists>e. r = Inl e \<and> pages_opened w' = pages_opened w) \<or>
         (r = Inr (pages_opened w) \<and> pages_opened w' = Suc (pages_opened w))"
  using assms
  by (auto simp: newPage_def perform_def Let_def closed_after_def split: if_splits)

lemma createPage_catch_None: "createPage_catch rt None e w = (Inl e, w\<lparr>console := console w @ [e]\<rparr>)"
  by (simp add: createPage_catch_def bind_io_def log_error_def throw_io_def)

lemma createPage_catch_Some:
  assumes "createPage_catch rt (Some p) e w = (r, w')"
  shows "r = Inl e" and "\<exists>r0. closePage rt (Some p) (w\<lparr>console := console w @ [e]\<rparr>) = (r0, w')"
  using assms
  by (auto simp: createPage_catch_def bind_io_def log_error_def throw_io_def closePage_def
      split: prod.splits sum.splits if_splits)

text \<open>The cleanup of the page the call opened: \<open>closePage\<close> calls \<^verbatim>\<open>page.close()\<close> unless the
  engine has closed the page already.\<close>

lemma cleanup_settles:
  assumes wf: "wf_world w"
    and op: "pages_opened w2 = Suc (pages_opened w)"
    and cl: "pages_closed w2 = pages_closed w \<or> pages_closed w2 = pages_closed w @ [pages_opened w]"
    and tr: "trace w2 = trace w @ cs" "close_attempts cs = 0"
    and run: "closePage rt (Some (pages_opened w)) w2 = (r, w')"
  shows "settled rt w w'"
proof -
  let ?p = "pages_opened w"
  have fresh: "?p \<notin> set (pages_closed w)" using wf by (auto simp: wf_world_def)
  from cl show ?thesis
  proof
    assume c: "pages_closed w2 = pages_closed w @ [?p]"
    then have "w' = w2" using run by (simp add: closePage_def isClosed_def)
    with c op tr show ?thesis unfolding settled_def by auto
  next
    assume c: "pages_closed w2 = pages_closed w"
    with fresh have open2: "\<not> isClosed ?p w2" by (simp add: isClosed_def)
    let ?t = "trace w2 @ [OnPage ?p ClosePage]"
    show ?thesis
    proof (cases "rejects rt ?t")
      case True
      with open2 run have w': "w' = w2\<lparr>trace := ?t\<rparr>"
        by (auto simp: closePage_def page_close_def perform_def Let_def)
      have t: "trace w' = trace w @ (cs @ [OnPage ?p ClosePage])" using w' tr(1) by simp
      have a: "close_attempts (cs @ [OnPage ?p ClosePage]) = 1"
        using tr(2) by (simp add: close_attempts_def)
      have n: "\<not> close_never_rejected rt" using True by (auto simp: close_never_rejected_def)
      have o: "pages_opened w' = Suc ?p" using w' op by simp
      show ?thesis unfolding settled_def using t a n o
        by (intro conjI exI[of _ "cs @ [OnPage ?p ClosePage]"]) simp_all
    next
      case False
      with open2 run have w': "w' = w2\<lparr>trace := ?t, pages_closed := pages_closed w2 @ [?p]\<rparr>"
        by (auto simp: closePage_def page_close_def perform_def Let_def)
      have t: "trace w' = trace w @ (cs @ [OnPage ?p ClosePage])" using w' tr(1) by simp
      have a: "close_attempts (cs @ [OnPage ?p ClosePage]) = 1"
        using tr(2) by (simp add: close_attempts_def)
      have o: "pages_opened w' = Suc ?p" using w' op by simp
      have k: "pages_closed w' = pages_closed w @ [?p ..< pages_opened w']"
        using w' c o by simp
      show ?thesis unfolding settled_def using t a o k
        by (intro conjI exI[of _ "cs @ [OnPage ?p ClosePage]"]) simp_all
    qed
  qed
qed

lemma createPage_cases:
  assumes wf: "wf_world w" and run: "createPage rt url po w = (r, w')"
  shows "(\<exists>e. r = Inl e \<and> settled rt w w') \<or>
         (r = Inr (pages_opened w) \<and> pages_opened w' = Suc (pages_opened w) \<and>
          (pages_closed w' = pages_closed w \<or>
           pages_closed w' = pages_closed w @ [pages_opened w]) \<and>
          (\<exists>cs. trace w' = trace w @ cs \<and> close_attempts cs = 0))"
proof -
  obtain r1 w1 where np: "newPage rt w = (r1, w1)" by (cases "newPage rt w")
  note n = newPage_cases[OF np]
  show ?thesis
  proof (cases r1)
    case (Inl e)
    with run np have "r = Inl e" "w' = w1\<lparr>console := console w1 @ [e]\<rparr>"
      by (simp_all add: createPage_def createPage_catch_None)
    with n Inl show ?thesis by (auto simp: settled_def close_attempts_def)
  next
    case (Inr p)
    with n have p: "p = pages_opened w" "pages_opened w1 = Suc (pages_opened w)" by auto
    obtain r2 w2 where cf: "configure rt p url po w1 = (r2, w2)"
      by (cases "configure rt p url po w1")
    note q = quietD[OF quiet_configure cf]
    from q(3) obtain cs where cs: "trace w2 = trace w1 @ cs" "close_attempts cs = 0" by blast
    have tr: "trace w2 = trace w @ (NewPage # cs)" "close_attempts (NewPage # cs) = 0"
      using cs n(1) by (simp_all add: close_attempts_def)
    have cl: "pages_closed w2 = pages_closed w \<or> pages_closed w2 = pages_closed w @ [pages_opened w]"
      using q(2) n(2) p(1) by auto
    have op: "pages_opened w2 = Suc (pages_opened w)" using q(1) p(2) by simp
    show ?thesis
    proof (cases r2)
      case (Inl e)
      with run np Inr cf have cc: "createPage_catch rt (Some p) e w2 = (r, w')"
        by (simp add: createPage_def)
      from createPage_catch_Some[OF cc] obtain r0 where
        r: "r = Inl e" and c: "closePage rt (Some p) (w2\<lparr>console := console w2 @ [e]\<rparr>) = (r0, w')"
        by blast
      have "settled rt w w'"
        by (rule cleanup_settles[OF wf _ _ _ _ c[unfolded p(1)]]) (use op cl tr in simp_all)
      with r show ?thesis by blast
    next
      case (Inr u)
      with run np \<open>r1 = Inr p\<close> cf have "r = Inr p" "w' = w2" by (simp_all add: createPage_def)
      moreover have "\<exists>cs. trace w2 = trace w @ cs \<and> close_attempts cs = 0"
        using tr by blast
      ultimately show ?thesis using p(1) op cl by simp
    qed
  qed
qed

lemma with_created_settled:
  assumes wf: "wf_world w" and body: "\<And>p. quiet p (body p)"
    and run: "with_created rt (createPage rt url po) body w = (r, w')"
  shows "settled rt w w'"
proof -
  obtain r1 w1 where cp: "createPage rt url po w = (r1, w1)" by (cases "createPage rt url po w")
  from createPage_cases[OF wf cp] show ?thesis
  proof
    assume "\<exists>e. r1 = Inl e \<and> settled rt w w1"
    then obtain e where "r1 = Inl e" "settled rt w w1" by blast
    moreover with run cp have "w' = w1"
      by (simp add: with_created_def finally_io_def throw_io_def)
    ultimately show ?thesis by simp
  next
    assume a: "r1 = Inr (pages_opened w) \<and> pages_opened w1 = Suc (pages_opened w) \<and>
          (pages_closed w1 = pages_closed w \<or>
           pages_closed w1 = pages_closed w @ [pages_opened w]) \<and>
          (\<exists>cs. trace w1 = trace w @ cs \<and> close_attempts cs = 0)"
    let ?p = "pages_opened w"
    from a obtain cs where cs: "trace w1 = trace w @ cs" "close_attempts cs = 0" by blast
    obtain r2 w2 where b: "body ?p w1 = (r2, w2)" by (cases "body ?p w1")
    note q = quietD[OF body b]
    from q(3) obtain ds where ds: "trace w2 = trace w1 @ ds" "close_attempts ds = 0" by blast
    obtain r3 where c: "closePage rt (Some ?p) w2 = (r3, w')"
      using run cp a b
      by (cases "closePage rt (Some ?p) w2")
         (auto simp: with_created_def finally_io_def split: sum.splits)
    have tr: "trace w2 = trace w @ (cs @ ds)" "close_attempts (cs @ ds) = 0"
      using cs ds by simp_all
    have cl: "pages_closed w2 = pages_closed w \<or> pages_closed w2 = pages_closed w @ [?p]"
      using q(2) a by auto
    have op: "pages_opened w2 = Suc ?p" using q(1) a by simp
    show ?thesis by (rule cleanup_settles[OF wf op cl tr c])
  qed
qed

lemma settled_no_page_leak:
  assumes "settled rt w w'"
  shows "no_page_leak rt w w'"
proof -
  from assms obtain cs where cs: "trace w' = trace w @ cs"
    "close_attempts cs \<le> pages_opened w' - pages_opened w"
    "close_attempts cs = 0 \<longrightarrow>
       pages_closed w' = pages_closed w @ [pages_opened w ..< pages_opened w']"
    unfolding settled_def by auto
  have n: "new_calls w w' = cs" using cs(1) by (simp add: new_calls_def)
  have e: "all_closed w w'"
    if "pages_closed w' = pages_closed w @ [pages_opened w ..< pages_opened w']"
    using that unfolding all_closed_def by simp
  have "close_unless_closed w w'"
    unfolding close_unless_closed_def n using cs e by simp
  moreover have "all_closed w w'" if "close_never_rejected rt"
    using that assms e unfolding settled_def by blast
  ultimately show ?thesis by (simp add: no_page_leak_def)
qed

text \<open>
  C1 (as amended). For every call to \<open>html\<close>, \<open>pdf\<close> or \<open>screenshot\<close> of the renderer whose
  \<open>createPage\<close> has the catch block, whatever the engine rejects or closes and on every exit
  path: \<^verbatim>\<open>page.close()\<close> is called at most once, for the page the call opened, and it is left
  out only when no page was opened or the page is closed already; and, provided the engine
  does not reject \<^verbatim>\<open>page.close()\<close>, the pages closed during the call are exactly the pages
  opened during it: as many pages are closed as were opened when the call returns.
\<close>

theorem render_closes_page_unless_close_fails:
  assumes "wf_world w"
  shows "no_page_leak rt w (snd (html rt url po w)) \<and>
         no_page_leak rt w (snd (pdf rt url po pdfo w)) \<and>
         no_page_leak rt w (snd (screenshot rt url po vo so w))"
proof (intro conjI)
  show "no_page_leak rt w (snd (html rt url po w))"
    unfolding html_def
    by (rule settled_no_page_leak, rule with_created_settled[OF assms _ surjective_pairing])
       (rule quiet_page_content)
  show "no_page_leak rt w (snd (pdf rt url po pdfo w))"
    unfolding pdf_def
    by (rule settled_no_page_leak, rule with_created_settled[OF assms _ surjective_pairing])
       (rule quiet_page_pdf)
  show "no_page_leak rt w (snd (screenshot rt url po vo so w))"
    unfolding screenshot_def
    by (rule settled_no_page_leak, rule with_created_settled[OF assms _ surjective_pairing])
       (rule quiet_screenshot_body)
qed

theorem render_closes_page_witness:
  "wf_world w0 \<and> close_never_rejected rt_ok \<and>
   all_closed w0 (snd (html rt_ok ''https://example.com'' po0 w0)) \<and>
   pages_opened (snd (html rt_ok ''https://example.com'' po0 w0)) = 1 \<and>
   pages_closed (snd (html rt_ok ''https://example.com'' po0 w0)) = [0] \<and>
   close_attempts (new_calls w0 (snd (html rt_ok ''https://example.com'' po0 w0))) = 1 \<and>
   close_attempts (new_calls w0 (snd (html rt_page_crashes ''https://example.com'' po0 w0))) = 0 \<and>
   pages_opened (snd (html rt_page_crashes ''https://example.com'' po0 w0)) = 1 \<and>
   all_closed w0 (snd (html rt_page_crashes ''https://example.com'' po0 w0))"
proof -
  have wf: "wf_world w0" by (simp add: wf_world_def w0_def)
  have cl: "close_never_rejected rt_ok" by (simp add: close_never_rejected_def rt_ok_def)
  have a: "pages_opened (snd (html rt_ok ''https://example.com'' po0 w0)) = 1 \<and>
        pages_closed (snd (html rt_ok ''https://example.com'' po0 w0)) = [0] \<and>
        close_attempts (new_calls w0 (snd (html rt_ok ''https://example.com'' po0 w0))) = 1"
    by (simp add: renderer_defs example_defs new_calls_def close_attempts_def)
  have b: "close_attempts (new_calls w0 (snd (html rt_page_crashes ''https://example.com'' po0 w0))) = 0 \<and>
        pages_opened (snd (html rt_page_crashes ''https://example.com'' po0 w0)) = 1"
    by (simp add: renderer_defs example_defs new_calls_def close_attempts_def)
  from render_closes_page_unless_close_fails[OF wf, of rt_ok "''https://example.com''" po0] cl
  have 1: "all_closed w0 (snd (html rt_ok ''https://example.com'' po0 w0))"
    by (simp add: no_page_leak_def)
  from render_closes_page_unless_close_fails[OF wf, of rt_page_crashes "''https://example.com''" po0] b
  have 2: "all_closed w0 (snd (html rt_page_crashes ''https://example.com'' po0 w0))"
    by (simp add: no_page_leak_def close_unless_closed_def)
  from wf cl a b 1 2 show ?thesis by blast
qed

text \<open>
  C1 as stated fails: with an engine that rejects \<^verbatim>\<open>page.close()\<close>, \<open>html\<close> returns the
  content, one page has been opened and none has been closed.
\<close>

theorem page_left_open_counterexample:
  "fst (html rt_close_fails ''https://example.com'' po0 w0) = Inr ''<html></html>'' \<and>
   pages_opened (snd (html rt_close_fails ''https://example.com'' po0 w0)) = 1 \<and>
   pages_closed (snd (html rt_close_fails ''https://example.com'' po0 w0)) = [] \<and>
   \<not> all_closed w0 (snd (html rt_close_fails ''https://example.com'' po0 w0))"
  by (simp add: renderer_defs example_defs all_closed_def)

section \<open>Close errors are swallowed\<close>

lemma clean_bind: "clean m \<Longrightarrow> (\<And>x. clean (f x)) \<Longrightarrow> clean (bind_io m f)"
  unfolding clean_def bind_io_def
proof
  fix w assume m: "\<forall>w. not_close_error (fst (m w))" and f: "\<And>x. \<forall>w. not_close_error (fst (f x w))"
  obtain r w1 where mw: "m w = (r, w1)" by (cases "m w")
  show "not_close_error (fst (case m w of (Inl e, w') \<Rightarrow> (Inl e, w') | (Inr x, w') \<Rightarrow> f x w'))"
  proof (cases r)
    case (Inl e) with m[rule_format, of w] mw show ?thesis by (simp add: not_close_error_def)
  next
    case (Inr x) with f[of x, rule_format, of w1] mw show ?thesis by simp
  qed
qed

lemma clean_perform: "\<not> is_close c \<Longrightarrow> clean (perform rt c)"
  by (simp add: clean_def perform_def Let_def not_close_error_def)

lemma clean_return [simp]: "clean (return_io x)"
  by (simp add: clean_def return_io_def not_close_error_def)

lemma clean_page_on_error [simp]: "clean (page_on_error p)"
  by (simp add: clean_def page_on_error_def not_close_error_def)

lemma clean_newPage: "clean (newPage rt)"
  by (simp add: clean_def newPage_def perform_def Let_def not_close_error_def)

lemma clean_configure: "clean (configure rt p url po)"
  unfolding configure_def apply_headers_def apply_media_def apply_credentials_def
  by (intro clean_bind clean_perform clean_page_on_error)
     (auto simp: clean_def throw_io_def return_io_def perform_def Let_def not_close_error_def
        split: option.splits)

lemma clean_page_content: "clean (page_content rt p)"
  unfolding page_content_def by (intro clean_bind clean_perform) auto

lemma clean_page_pdf: "clean (page_pdf rt p o')"
  unfolding page_pdf_def by (intro clean_bind clean_perform) auto

lemma clean_screenshot_body: "clean (screenshot_body rt vo so p)"
  unfolding screenshot_body_def page_screenshot_def
  by (intro clean_bind clean_perform) (auto simp: clean_perform)

lemma closePage_fst [simp]: "fst (closePage rt page w) = Inr ()"
  by (simp add: closePage_def split: option.splits prod.splits sum.splits)

lemma closePage2_fst [simp]: "fst (closePage2 rt page w) = Inr ()"
  by (simp add: closePage2_def log_error_def split: option.splits prod.splits sum.splits)

lemma finally_closePage [simp]: "fst (finally_io m (closePage rt page) w) = fst (m w)"
proof -
  obtain r w1 where m: "m w = (r, w1)" by (cases "m w")
  obtain w2 where "closePage rt page w1 = (Inr (), w2)"
    using closePage_fst[of rt page w1] by (cases "closePage rt page w1") simp
  with m show ?thesis by (simp add: finally_io_def)
qed

lemma finally_closePage2 [simp]: "fst (finally_io m (closePage2 rt page) w) = fst (m w)"
proof -
  obtain r w1 where m: "m w = (r, w1)" by (cases "m w")
  obtain w2 where "closePage2 rt page w1 = (Inr (), w2)"
    using closePage2_fst[of rt page w1] by (cases "closePage2 rt page w1") simp
  with m show ?thesis by (simp add: finally_io_def)
qed

lemma createPage_catch_fst [simp]: "fst (createPage_catch rt page e w) = Inl e"
proof -
  obtain w2 where "closePage rt page (w\<lparr>console := console w @ [e]\<rparr>) = (Inr (), w2)"
    using closePage_fst[of rt page "w\<lparr>console := console w @ [e]\<rparr>"]
    by (cases "closePage rt page (w\<lparr>console := console w @ [e]\<rparr>)") simp
  then show ?thesis
    by (simp add: createPage_catch_def bind_io_def log_error_def throw_io_def)
qed

text \<open>The completion of \<open>createPage\<close> is that of opening and configuring the page.\<close>

lemma createPage_fst: "fst (createPage rt url po w) = fst (createPage2 rt url po w)"
proof -
  obtain r1 w1 where n: "newPage rt w = (r1, w1)" by (cases "newPage rt w")
  show ?thesis
  proof (cases r1)
    case (Inl e)
    with n show ?thesis by (simp add: createPage_def createPage2_def bind_io_def)
  next
    case (Inr p)
    obtain r2 w2 where c: "configure rt p url po w1 = (r2, w2)"
      by (cases "configure rt p url po w1")
    with n Inr show ?thesis
      by (cases r2) (simp_all add: createPage_def createPage2_def bind_io_def return_io_def)
  qed
qed

lemma createPage_snd:
  "fst (createPage rt url po w) = Inr p \<Longrightarrow> createPage rt url po w = createPage2 rt url po w"
  by (auto simp: createPage_def createPage2_def bind_io_def return_io_def
      split: prod.splits sum.splits)

lemma clean_createPage2: "clean (createPage2 rt url po)"
  unfolding createPage2_def
  by (intro clean_bind clean_newPage clean_configure clean_return)

lemma with_created_fst:
  "fst (with_created rt (createPage rt url po) body w) =
     (case createPage2 rt url po w of (Inl e, w1) \<Rightarrow> Inl e | (Inr p, w1) \<Rightarrow> fst (body p w1))"
proof (cases "fst (createPage rt url po w)")
  case (Inl e)
  then have "fst (createPage2 rt url po w) = Inl e" by (simp add: createPage_fst)
  with Inl show ?thesis
    by (cases "createPage rt url po w"; cases "createPage2 rt url po w")
       (simp add: with_created_def throw_io_def)
next
  case (Inr p)
  from createPage_snd[OF this] Inr show ?thesis
    by (cases "createPage2 rt url po w") (simp add: with_created_def)
qed

lemma withPage_fst:
  "fst (withPage rt body url po w) =
     (case createPage2 rt url po w of (Inl e, w1) \<Rightarrow> Inl e | (Inr p, w1) \<Rightarrow> fst (body p w1))"
  by (cases "createPage2 rt url po w") (auto simp: withPage_def throw_io_def split: sum.splits)

lemma clean_scoped:
  assumes "\<And>p. clean (body p)"
  shows "not_close_error
     (case createPage2 rt url po w of (Inl e, w1) \<Rightarrow> Inl e | (Inr p, w1) \<Rightarrow> fst (body p w1))"
proof -
  obtain r w1 where c: "createPage2 rt url po w = (r, w1)" by (cases "createPage2 rt url po w")
  show ?thesis
  proof (cases r)
    case (Inl e)
    with c clean_createPage2[of rt url po] show ?thesis
      by (auto simp: clean_def not_close_error_def dest: spec[of _ w])
  next
    case (Inr p)
    with c assms[of p] show ?thesis by (simp add: clean_def)
  qed
qed

lemma simI:
  assumes "\<And>w v. alike w v \<Longrightarrow> fst (m w) = fst (n v) \<and> alike (snd (m w)) (snd (n v))"
  shows "sim m n"
  using assms unfolding sim_def by blast

lemma simD:
  assumes "sim m n" and "alike w v"
  shows "fst (m w) = fst (n v)" and "alike (snd (m w)) (snd (n v))"
  using assms unfolding sim_def by blast+

lemma sim_bind:
  assumes m: "sim m n" and f: "\<And>x. sim (f x) (g x)"
  shows "sim (bind_io m f) (bind_io n g)"
proof (rule simI)
  fix w v assume a: "alike w v"
  obtain r w1 where mw: "m w = (r, w1)" by (cases "m w")
  obtain s v1 where nv: "n v = (s, v1)" by (cases "n v")
  from simD[OF m a] mw nv have rs: "s = r" and a1: "alike w1 v1" by simp_all
  show "fst (bind_io m f w) = fst (bind_io n g v) \<and>
        alike (snd (bind_io m f w)) (snd (bind_io n g v))"
  proof (cases r)
    case (Inl e)
    with mw nv rs a1 show ?thesis by (simp add: bind_io_def)
  next
    case (Inr x)
    with mw nv rs simD[OF f a1, of x] show ?thesis by (simp add: bind_io_def)
  qed
qed

lemma sim_perform:
  "same_but_close rt rt' \<Longrightarrow> \<not> is_close c \<Longrightarrow> sim (perform rt' c) (perform rt c)"
  by (rule simI) (simp add: same_but_close_def perform_def Let_def alike_def)

lemma sim_return: "sim (return_io x) (return_io x)"
  by (rule simI) (simp add: return_io_def)

lemma sim_throw: "sim (throw_io e) (throw_io e)"
  by (rule simI) (simp add: throw_io_def)

lemma sim_page_on_error: "sim (page_on_error p) (page_on_error p)"
  by (rule simI) (simp add: page_on_error_def alike_def)

lemma sim_newPage:
  assumes "same_but_close rt rt'"
  shows "sim (newPage rt') (newPage rt)"
  using assms
  by (intro simI) (simp add: same_but_close_def newPage_def perform_def Let_def alike_def)

lemma sim_configure:
  assumes s: "same_but_close rt rt'"
  shows "sim (configure rt' p url po) (configure rt p url po)"
proof -
  have j: "JSON_parse rt' = JSON_parse rt" using s by (simp add: same_but_close_def)
  have h: "sim (apply_headers rt' p hs) (apply_headers rt p hs)" for hs
    by (simp add: apply_headers_def j sim_perform[OF s] sim_return sim_throw split: option.splits)
  have m: "sim (apply_media rt' p mt) (apply_media rt p mt)" for mt
    by (simp add: apply_media_def sim_perform[OF s] sim_return split: option.splits)
  have c: "sim (apply_credentials rt' p cr) (apply_credentials rt p cr)" for cr
    by (simp add: apply_credentials_def sim_perform[OF s] sim_return split: option.splits)
  show ?thesis
    unfolding configure_def
    by (intro sim_bind sim_page_on_error h m c sim_perform[OF s]) simp_all
qed

lemma sim_createPage2:
  assumes s: "same_but_close rt rt'"
  shows "sim (createPage2 rt' url po) (createPage2 rt url po)"
  unfolding createPage2_def
  by (intro sim_bind sim_newPage[OF s] sim_configure[OF s] sim_return)

lemma sim_bodies:
  assumes s: "same_but_close rt rt'"
  shows "sim (page_content rt' p) (page_content rt p)"
    and "sim (page_pdf rt' p pdfo) (page_pdf rt p pdfo)"
    and "sim (screenshot_body rt' vo so p) (screenshot_body rt vo so p)"
    and "sim (bind_io (perform rt' (OnPage p (Goto url n))) (\<lambda>_. page_content rt' p))
             (bind_io (perform rt (OnPage p (Goto url n))) (\<lambda>_. page_content rt p))"
    and "sim (bind_io (screenshot_body rt' vo so p) (\<lambda>b. return_io (imgtype so, b)))
             (bind_io (screenshot_body rt vo so p) (\<lambda>b. return_io (imgtype so, b)))"
proof -
  have v: "content_value rt' = content_value rt" "pdf_value rt' = pdf_value rt"
    "screenshot_value rt' = screenshot_value rt"
    using s by (simp_all add: same_but_close_def)
  show c: "sim (page_content rt' p) (page_content rt p)"
    unfolding page_content_def v by (intro sim_bind sim_perform[OF s] sim_return) simp
  show "sim (page_pdf rt' p pdfo) (page_pdf rt p pdfo)"
    unfolding page_pdf_def v by (intro sim_bind sim_perform[OF s] sim_return) simp
  have w: "sim (if animationTimeout so > 0
        then perform rt' (OnPage p (WaitForAnimations so (animationTimeout so)))
        else return_io ())
      (if animationTimeout so > 0
        then perform rt (OnPage p (WaitForAnimations so (animationTimeout so)))
        else return_io ())"
    by (simp add: sim_perform[OF s] sim_return)
  show b: "sim (screenshot_body rt' vo so p) (screenshot_body rt vo so p)"
    unfolding screenshot_body_def page_screenshot_def v
    by (intro sim_bind sim_perform[OF s] sim_return w) simp_all
  show "sim (bind_io (perform rt' (OnPage p (Goto url n))) (\<lambda>_. page_content rt' p))
             (bind_io (perform rt (OnPage p (Goto url n))) (\<lambda>_. page_content rt p))"
    by (intro sim_bind sim_perform[OF s] c) simp
  show "sim (bind_io (screenshot_body rt' vo so p) (\<lambda>b. return_io (imgtype so, b)))
             (bind_io (screenshot_body rt vo so p) (\<lambda>b. return_io (imgtype so, b)))"
    by (intro sim_bind b sim_return)
qed

lemma scoped_sim:
  assumes m: "sim m n" and b: "\<And>p. sim (f p) (g p)"
  shows "(case m w of (Inl e, w1) \<Rightarrow> Inl e | (Inr p, w1) \<Rightarrow> fst (f p w1)) =
         (case n w of (Inl e, w1) \<Rightarrow> Inl e | (Inr p, w1) \<Rightarrow> fst (g p w1))"
proof -
  have a: "alike w w" by (simp add: alike_def)
  obtain r w1 where mw: "m w = (r, w1)" by (cases "m w")
  obtain s v1 where nw: "n w = (s, v1)" by (cases "n w")
  from simD[OF m a] mw nw have rs: "s = r" and a1: "alike w1 v1" by simp_all
  show ?thesis
  proof (cases r)
    case (Inl e)
    with mw nw rs show ?thesis by simp
  next
    case (Inr p)
    with mw nw rs simD(1)[OF b a1, of p] show ?thesis by simp
  qed
qed

lemma clean_html2_body:
  "clean (bind_io (perform rt (OnPage p (Goto url n))) (\<lambda>_. page_content rt p))"
  by (intro clean_bind clean_perform clean_page_content) simp

lemma clean_screenshot_pair:
  "clean (bind_io (screenshot_body rt vo so p) (\<lambda>b. return_io (imgtype so, b)))"
  by (intro clean_bind clean_screenshot_body clean_return)

text \<open>
  C2. Whether the engine rejects \<^verbatim>\<open>page.close()\<close> has no effect on how a render call
  completes: two runtimes that differ only in the rejection of close calls give the same
  completion (the same value, or the same error E) for \<open>html\<close>, \<open>pdf\<close> and \<open>screenshot\<close> of
  both renderers, and no call ever completes with the rejection of a close call.
\<close>

theorem close_error_is_swallowed:
  assumes "same_but_close rt rt'"
  shows "render_results rt' url po pdfo vo so w = render_results rt url po pdfo vo so w \<and>
         (case render_results rt' url po pdfo vo so w of
            (a, b, c, d, e, f) \<Rightarrow>
              not_close_error a \<and> not_close_error b \<and> not_close_error c \<and>
              not_close_error d \<and> not_close_error e \<and> not_close_error f)"
proof
  note c = sim_createPage2[OF assms]
  note b = sim_bodies[OF assms]
  have "fst (html rt' url po w) = fst (html rt url po w)"
    unfolding html_def with_created_fst by (rule scoped_sim[OF c b(1)])
  moreover have "fst (pdf rt' url po pdfo w) = fst (pdf rt url po pdfo w)"
    unfolding pdf_def with_created_fst by (rule scoped_sim[OF c b(2)])
  moreover have "fst (screenshot rt' url po vo so w) = fst (screenshot rt url po vo so w)"
    unfolding screenshot_def with_created_fst by (rule scoped_sim[OF c b(5)])
  moreover have "fst (html2 rt' url po w) = fst (html2 rt url po w)"
    unfolding html2_def withPage_fst by (rule scoped_sim[OF c b(4)])
  moreover have "fst (pdf2 rt' url po pdfo w) = fst (pdf2 rt url po pdfo w)"
    unfolding pdf2_def withPage_fst by (rule scoped_sim[OF c b(2)])
  moreover have "fst (screenshot2 rt' url po vo so w) = fst (screenshot2 rt url po vo so w)"
    unfolding screenshot2_def withPage_fst by (rule scoped_sim[OF c b(3)])
  ultimately show "render_results rt' url po pdfo vo so w = render_results rt url po pdfo vo so w"
    by (simp add: render_results_def)
  show "case render_results rt' url po pdfo vo so w of
          (a, b, c, d, e, f) \<Rightarrow>
            not_close_error a \<and> not_close_error b \<and> not_close_error c \<and>
            not_close_error d \<and> not_close_error e \<and> not_close_error f"
    unfolding render_results_def html_def pdf_def screenshot_def html2_def pdf2_def
      screenshot2_def with_created_fst withPage_fst prod.case
    by (intro conjI clean_scoped clean_page_content clean_page_pdf clean_screenshot_pair
        clean_html2_body clean_screenshot_body)
qed

theorem close_error_is_swallowed_witness:
  "same_but_close rt_goto_fails rt_goto_and_close_fail \<and>
   fst (html rt_goto_and_close_fail ''https://example.com'' po0 w0) =
     Inl (Rejected (OnPage 0 (Goto ''https://example.com'' \<lparr>timeout = None, waitUntil = None\<rparr>))) \<and>
   fst (html rt_goto_fails ''https://example.com'' po0 w0) =
     fst (html rt_goto_and_close_fail ''https://example.com'' po0 w0)"
proof -
  have s: "same_but_close rt_goto_fails rt_goto_and_close_fail"
    by (simp add: same_but_close_def example_defs)
  have "fst (html rt_goto_and_close_fail ''https://example.com'' po0 w0) =
     Inl (Rejected (OnPage 0 (Goto ''https://example.com'' \<lparr>timeout = None, waitUntil = None\<rparr>)))"
    by (simp add: renderer_defs example_defs)
  with s close_error_is_swallowed[OF s, of "''https://example.com''" po0 "[]" vo0 so0 w0]
  show ?thesis by (simp add: render_results_def)
qed

section \<open>The order of the engine calls\<close>

lemma followsI:
  assumes "\<And>w r w'. m w = (r, w') \<Longrightarrow>
     \<exists>k\<le>length plan. trace w' = trace w @ take k plan \<and> (\<forall>x. r = Inr x \<longrightarrow> k = length plan)"
  shows "follows plan m"
  using assms unfolding follows_def by blast

lemma followsD:
  assumes "follows plan m" and "m w = (r, w')"
  obtains k where "k \<le> length plan" and "trace w' = trace w @ take k plan"
    and "\<And>x. r = Inr x \<Longrightarrow> k = length plan"
  using assms unfolding follows_def by blast

lemma follows_bind:
  assumes m: "follows p1 m" and f: "\<And>x. follows p2 (f x)"
  shows "follows (p1 @ p2) (bind_io m f)"
proof (rule followsI)
  fix w r w'
  assume run: "bind_io m f w = (r, w')"
  obtain r1 w1 where m1: "m w = (r1, w1)" by (cases "m w")
  from followsD[OF m m1] obtain k1 where k1: "k1 \<le> length p1"
    "trace w1 = trace w @ take k1 p1" "\<And>x. r1 = Inr x \<Longrightarrow> k1 = length p1" by blast
  show "\<exists>k\<le>length (p1 @ p2). trace w' = trace w @ take k (p1 @ p2) \<and>
          (\<forall>x. r = Inr x \<longrightarrow> k = length (p1 @ p2))"
  proof (cases r1)
    case (Inl e)
    with run m1 have "r = Inl e" "w' = w1" by (simp_all add: bind_io_def)
    with k1 show ?thesis by (intro exI[of _ k1]) simp
  next
    case (Inr x)
    with run m1 have f1: "f x w1 = (r, w')" by (simp add: bind_io_def)
    from followsD[OF f f1] obtain k2 where k2: "k2 \<le> length p2"
      "trace w' = trace w1 @ take k2 p2" "\<And>y. r = Inr y \<Longrightarrow> k2 = length p2" by blast
    from k1(3)[OF Inr] k1(2) k2 show ?thesis
      by (intro exI[of _ "length p1 + k2"]) auto
  qed
qed

lemma follows_perform: "follows [c] (perform rt c)"
  by (rule followsI) (auto simp: perform_def Let_def intro: exI[of _ 1])

lemma follows_return: "follows [] (return_io x)"
  by (rule followsI) (simp add: return_io_def)

lemma follows_throw: "follows [] (throw_io e)"
  by (rule followsI) (auto simp: throw_io_def)

lemma follows_page_on_error: "follows [OnPage p OnError] (page_on_error p)"
  by (rule followsI) (auto simp: page_on_error_def intro: exI[of _ 1])

lemma follows_apply_headers: "follows (headers_calls rt p hs) (apply_headers rt p hs)"
  by (auto simp: headers_calls_def apply_headers_def follows_perform follows_return follows_throw
      split: option.splits)

lemma follows_apply_media: "follows (media_calls p m) (apply_media rt p m)"
  by (auto simp: media_calls_def apply_media_def follows_perform follows_return split: option.splits)

lemma follows_apply_credentials: "follows (credentials_calls p c) (apply_credentials rt p c)"
  by (auto simp: credentials_calls_def apply_credentials_def follows_perform follows_return
      split: option.splits)

lemma follows_configure: "follows (config_calls rt p url po) (configure rt p url po)"
proof -
  have "follows ([OnPage p OnError] @ headers_calls rt p (headers po) @
      media_calls p (emulateMediaType po) @ credentials_calls p (credentials po) @
      [OnPage p (SetCacheEnabled False)] @ [OnPage p (Goto url (nav_options po))])
    (configure rt p url po)"
    unfolding configure_def
    by (intro follows_bind follows_page_on_error follows_apply_headers follows_apply_media
        follows_apply_credentials follows_perform)
  then show ?thesis by (simp add: config_calls_def)
qed

lemma follows_page_content: "follows [OnPage p Content] (page_content rt p)"
  using follows_bind[OF follows_perform follows_return]
  by (simp add: page_content_def)

lemma follows_page_pdf: "follows [OnPage p (Pdf pdfo)] (page_pdf rt p pdfo)"
  using follows_bind[OF follows_perform follows_return]
  by (simp add: page_pdf_def)

lemma follows_screenshot_body:
  "follows (screenshot_calls p vo so) (screenshot_body rt vo so p)"
proof -
  have w: "follows (if animationTimeout so > 0
        then [OnPage p (WaitForAnimations so (animationTimeout so))] else [])
      (if animationTimeout so > 0
        then perform rt (OnPage p (WaitForAnimations so (animationTimeout so)))
        else return_io ())"
    by (simp add: follows_perform follows_return)
  have s: "follows ([OnPage p (Screenshot (capture_of so))] @ [])
      (page_screenshot rt p (capture_of so))"
    unfolding page_screenshot_def by (intro follows_bind follows_perform follows_return)
  have "follows ([OnPage p (SetViewport vo)] @
      (if animationTimeout so > 0
        then [OnPage p (WaitForAnimations so (animationTimeout so))] else []) @
      [OnPage p (Screenshot (capture_of so))] @ [])
    (screenshot_body rt vo so p)"
    unfolding screenshot_body_def
    by (intro follows_bind follows_perform w s)
  then show ?thesis by (simp add: screenshot_calls_def)
qed


lemma closePage_trace:
  assumes "closePage rt page w = (r, w')"
  shows "\<exists>closing. trace w' = trace w @ closing \<and>
           (closing = [] \<or> (\<exists>p. page = Some p \<and> closing = [OnPage p ClosePage]))"
  using assms
  by (auto simp: closePage_def page_close_def perform_def Let_def
      split: option.splits if_splits)

lemma runs_planI:
  assumes "k \<le> length plan" and "trace w' = trace w @ take k plan @ closing"
    and "closing = [] \<or> closing = [OnPage p ClosePage]"
    and "\<And>x. r = Inr x \<Longrightarrow> k = length plan"
  shows "runs_plan plan p w w' r"
  unfolding runs_plan_def using assms by blast

lemma with_created_runs:
  assumes body: "\<And>p. follows (bplan p) (body p)"
    and run: "with_created rt (createPage rt url po) body w = (r, w')"
  shows "runs_plan (NewPage # config_calls rt (pages_opened w) url po @ bplan (pages_opened w))
           (pages_opened w) w w' r"
proof -
  let ?p = "pages_opened w"
  let ?cfg = "config_calls rt ?p url po"
  let ?plan = "NewPage # ?cfg @ bplan ?p"
  obtain r1 w1 where np: "newPage rt w = (r1, w1)" by (cases "newPage rt w")
  note n = newPage_cases[OF np]
  show ?thesis
  proof (cases r1)
    case (Inl e)
    with np have cp: "createPage rt url po w = (Inl e, w1\<lparr>console := console w1 @ [e]\<rparr>)"
      by (simp add: createPage_def createPage_catch_None)
    with run have "r = Inl e" "w' = w1\<lparr>console := console w1 @ [e]\<rparr>"
      by (simp_all add: with_created_def finally_io_def throw_io_def)
    with n(1) show ?thesis by (intro runs_planI[of 1 _ _ _ "[]"]) simp_all
  next
    case (Inr p)
    with n Inl_Inr_False have p: "p = ?p" by auto
    obtain r2 w2 where cf: "configure rt ?p url po w1 = (r2, w2)"
      by (cases "configure rt ?p url po w1")
    from followsD[OF follows_configure cf] obtain k where k: "k \<le> length ?cfg"
      "trace w2 = trace w1 @ take k ?cfg" "\<And>x. r2 = Inr x \<Longrightarrow> k = length ?cfg" by blast
    show ?thesis
    proof (cases r2)
      case (Inl e)
      with np Inr p cf have "createPage rt url po w = createPage_catch rt (Some ?p) e w2"
        by (simp add: createPage_def)
      moreover obtain r3 w3 where cc: "createPage_catch rt (Some ?p) e w2 = (r3, w3)"
        by (cases "createPage_catch rt (Some ?p) e w2")
      moreover from createPage_catch_Some[OF cc] obtain r0 where
        r3: "r3 = Inl e" and cl: "closePage rt (Some ?p) (w2\<lparr>console := console w2 @ [e]\<rparr>) = (r0, w3)"
        by blast
      ultimately have "r = Inl e" "w' = w3"
        using run by (simp_all add: with_created_def finally_io_def throw_io_def)
      moreover from closePage_trace[OF cl] obtain closing where
        "trace w3 = trace w2 @ closing" "closing = [] \<or> closing = [OnPage ?p ClosePage]"
        by auto
      ultimately show ?thesis using k(1,2) n(1)
        by (intro runs_planI[of "Suc k" _ _ _ closing]) simp_all
    next
      case (Inr u)
      with np \<open>r1 = Inr p\<close> p cf have cp: "createPage rt url po w = (Inr ?p, w2)"
        by (simp add: createPage_def)
      obtain r3 w3 where b: "body ?p w2 = (r3, w3)" by (cases "body ?p w2")
      from followsD[OF body b] obtain j where j: "j \<le> length (bplan ?p)"
        "trace w3 = trace w2 @ take j (bplan ?p)" "\<And>x. r3 = Inr x \<Longrightarrow> j = length (bplan ?p)"
        by blast
      obtain r4 w4 where cl: "closePage rt (Some ?p) w3 = (r4, w4)"
        by (cases "closePage rt (Some ?p) w3")
      have "r4 = Inr ()" using closePage_fst[of rt "Some ?p" w3] cl by simp
      with run cp b cl have res: "r = r3" "w' = w4"
        by (simp_all add: with_created_def finally_io_def)
      from closePage_trace[OF cl] obtain closing where
        c: "trace w4 = trace w3 @ closing" "closing = [] \<or> closing = [OnPage ?p ClosePage]"
        by auto
      have kk: "k = length ?cfg" using k(3) Inr by simp
      show ?thesis
      proof (rule runs_planI[of "Suc (length ?cfg + j)" _ _ _ closing])
        show "Suc (length ?cfg + j) \<le> length ?plan" using j(1) by simp
        show "trace w' = trace w @ take (Suc (length ?cfg + j)) ?plan @ closing"
          using res c(1) j(2) k(2) kk n(1) by simp
        show "closing = [] \<or> closing = [OnPage ?p ClosePage]" by (rule c(2))
        show "\<And>x. r = Inr x \<Longrightarrow> Suc (length ?cfg + j) = length ?plan"
          using res(1) j(3) by simp
      qed
    qed
  qed
qed

lemma runs_planE:
  assumes "runs_plan plan p w w' r"
  obtains k closing where "k \<le> length plan" and "new_calls w w' = take k plan @ closing"
    and "closing = [] \<or> closing = [OnPage p ClosePage]"
    and "\<And>x. r = Inr x \<Longrightarrow> k = length plan"
    and "trace w' = trace w @ new_calls w w'"
proof -
  from assms obtain k closing where a: "k \<le> length plan"
    "trace w' = trace w @ take k plan @ closing"
    "closing = [] \<or> closing = [OnPage p ClosePage]" "\<forall>x. r = Inr x \<longrightarrow> k = length plan"
    unfolding runs_plan_def by blast
  have "new_calls w w' = take k plan @ closing" using a(2) by (simp add: new_calls_def)
  with a that show ?thesis by simp
qed

lemma config_ranks:
  "sorted_wrt (<) (map step_rank (NewPage # config_calls rt p url po))"
  "\<forall>c \<in> set (NewPage # config_calls rt p url po). step_rank c < 7"
  by (auto simp: config_calls_def headers_calls_def media_calls_def credentials_calls_def
      split: option.splits)






lemma render_runs:
  "runs_plan ((NewPage # config_calls rt (pages_opened w) url po) @ [OnPage (pages_opened w) Content])
     (pages_opened w) w (snd (html rt url po w)) (fst (html rt url po w))"
  "runs_plan ((NewPage # config_calls rt (pages_opened w) url (pdf_pageOptions po)) @
       [OnPage (pages_opened w) (Pdf pdfo)])
     (pages_opened w) w (snd (pdf rt url po pdfo w)) (fst (pdf rt url po pdfo w))"
  "runs_plan ((NewPage # config_calls rt (pages_opened w) url po) @
       screenshot_calls (pages_opened w) vo so)
     (pages_opened w) w (snd (screenshot rt url po vo so w)) (fst (screenshot rt url po vo so w))"
proof -
  show "runs_plan ((NewPage # config_calls rt (pages_opened w) url po) @ [OnPage (pages_opened w) Content])
     (pages_opened w) w (snd (html rt url po w)) (fst (html rt url po w))"
    using with_created_runs[of "\<lambda>p. [OnPage p Content]" "page_content rt" rt url po w,
        OF follows_page_content] 
    by (simp add: html_def)
  show "runs_plan ((NewPage # config_calls rt (pages_opened w) url (pdf_pageOptions po)) @
       [OnPage (pages_opened w) (Pdf pdfo)])
     (pages_opened w) w (snd (pdf rt url po pdfo w)) (fst (pdf rt url po pdfo w))"
    using with_created_runs[of "\<lambda>p. [OnPage p (Pdf pdfo)]" "\<lambda>p. page_pdf rt p pdfo" rt url
        "pdf_pageOptions po" w, OF follows_page_pdf]
    by (simp add: pdf_def)
  have "follows (screenshot_calls p vo so @ [])
      (bind_io (screenshot_body rt vo so p) (\<lambda>b. return_io (imgtype so, b)))" for p
    by (intro follows_bind follows_screenshot_body follows_return)
  then show "runs_plan ((NewPage # config_calls rt (pages_opened w) url po) @
       screenshot_calls (pages_opened w) vo so)
     (pages_opened w) w (snd (screenshot rt url po vo so w)) (fst (screenshot rt url po vo so w))"
    using with_created_runs[of "\<lambda>p. screenshot_calls p vo so"
        "\<lambda>p. bind_io (screenshot_body rt vo so p) (\<lambda>b. return_io (imgtype so, b))" rt url po w]
    by (simp add: screenshot_def)
qed

lemma with_created_failed:
  assumes "fst (createPage rt url po w) = Inl e"
  shows "snd (with_created rt (createPage rt url po) body w) = snd (createPage rt url po w)"
  using assms
  by (cases "createPage rt url po w") (simp add: with_created_def finally_io_def throw_io_def)





section \<open>The media type of a PDF request\<close>

lemma media_types_append [simp]: "media_types (xs @ ys) = media_types xs @ media_types ys"
  by (induction xs rule: media_types.induct) simp_all

lemma captures_append [simp]: "captures (xs @ ys) = captures xs @ captures ys"
  by (induction xs rule: captures.induct) simp_all

lemma media_types_headers [simp]: "media_types (headers_calls rt p hs) = []"
  by (simp add: headers_calls_def split: option.splits)

lemma media_types_credentials [simp]: "media_types (credentials_calls p c) = []"
  by (simp add: credentials_calls_def split: option.splits)

lemma media_types_take: "media_types xs = [] \<Longrightarrow> media_types (take k xs) = []"
proof -
  assume "media_types xs = []"
  then have "media_types (take k xs @ drop k xs) = []" by simp
  then show ?thesis unfolding media_types_append by simp
qed

lemma media_types_Cons_media:
  "media_types (OnPage p (EmulateMediaType m) # cs) = m # media_types cs"
  by simp

lemma media_types_plan_head:
  "media_types (NewPage # OnPage p OnError # headers_calls rt p hs) = []"
  by simp

lemma take_split:
  "take k (xs @ y # ys) = (if k \<le> length xs then take k xs else xs @ y # take (k - Suc (length xs)) ys)"
  by (auto simp: take_Cons' not_le Suc_diff_Suc split: if_splits)

text \<open>The plan of a PDF call, split at the media-type call.\<close>

lemma pdf_plan_split:
  "(NewPage # config_calls rt p url (pdf_pageOptions po)) @ [OnPage p (Pdf pdfo)] =
     (NewPage # OnPage p OnError # headers_calls rt p (headers po)) @
     OnPage p (EmulateMediaType (effective_media po)) #
     (credentials_calls p (credentials po) @
      [OnPage p (SetCacheEnabled False), OnPage p (Goto url (nav_options po)), OnPage p (Pdf pdfo)])"
  by (simp add: config_calls_def pdf_pageOptions_def media_calls_def effective_media_def
      nav_options_def)

lemma no_goto_before_media:
  "c \<in> set (NewPage # OnPage p OnError # headers_calls rt p hs) \<Longrightarrow> \<not> is_goto c \<and> \<not> is_extraction c"
  by (auto simp: headers_calls_def is_extraction_def split: option.splits if_splits)

text \<open>
  C3. For every \<open>pdf\<close> call the page options given to \<open>createPage\<close> carry the effective
  media type: \<open>print\<close> when the caller left \<open>emulateMediaType\<close> unset, the caller's value
  when it is set. No other media type is applied to the page during the call, and whenever
  the call gets as far as navigating, exactly this media type has been applied.
\<close>

theorem pdf_media_type:
  "emulateMediaType (pdf_pageOptions po) = Some (effective_media po) \<and>
   (emulateMediaType po = None \<longrightarrow> effective_media po = Print) \<and>
   (\<forall>m. emulateMediaType po = Some m \<longrightarrow> effective_media po = m) \<and>
   set (media_types (new_calls w (snd (pdf rt url po pdfo w)))) \<subseteq> {effective_media po} \<and>
   ((\<exists>c \<in> set (new_calls w (snd (pdf rt url po pdfo w))). is_goto c \<or> is_extraction c) \<longrightarrow>
      media_types (new_calls w (snd (pdf rt url po pdfo w))) = [effective_media po])"
proof -
  let ?p = "pages_opened w"
  let ?cs = "new_calls w (snd (pdf rt url po pdfo w))"
  let ?A = "NewPage # OnPage ?p OnError # headers_calls rt ?p (headers po)"
  let ?M = "OnPage ?p (EmulateMediaType (effective_media po))"
  let ?B = "credentials_calls ?p (credentials po) @
      [OnPage ?p (SetCacheEnabled False), OnPage ?p (Goto url (nav_options po)), OnPage ?p (Pdf pdfo)]"
  from render_runs(2)[of rt w url po pdfo] obtain k closing where
    k: "?cs = take k (?A @ ?M # ?B) @ closing" "closing = [] \<or> closing = [OnPage ?p ClosePage]"
    unfolding pdf_plan_split by (rule runs_planE)
  have mc: "media_types closing = []" using k(2) by auto
  have mA: "media_types (take j ?A) = []" for j
    by (rule media_types_take) simp
  have mB: "media_types (take j ?B) = []" for j
    by (rule media_types_take) simp
  have eff: "emulateMediaType (pdf_pageOptions po) = Some (effective_media po) \<and>
      (emulateMediaType po = None \<longrightarrow> effective_media po = Print) \<and>
      (\<forall>m. emulateMediaType po = Some m \<longrightarrow> effective_media po = m)"
    by (simp add: pdf_pageOptions_def effective_media_def)
  show ?thesis
  proof (cases "k \<le> length ?A")
    case True
    then have cs: "?cs = take k ?A @ closing" using k(1) by (simp only: take_split if_True)
    have m: "media_types ?cs = []" unfolding cs using mA mc by simp
    have "\<not> is_goto c \<and> \<not> is_extraction c" if "c \<in> set ?cs" for c
    proof -
      from that cs have "c \<in> set (take k ?A) \<or> c \<in> set closing" by simp
      then show ?thesis
      proof
        assume "c \<in> set (take k ?A)"
        then have "c \<in> set ?A" by (rule in_set_takeD)
        then show ?thesis by (rule no_goto_before_media)
      next
        assume "c \<in> set closing"
        with k(2) show ?thesis by (auto simp: is_extraction_def)
      qed
    qed
    with m eff show ?thesis by auto
  next
    case False
    then have cs: "?cs = (?A @ ?M # take (k - Suc (length ?A)) ?B) @ closing"
      using k(1) by (simp only: take_split if_False)
    have "media_types ?cs = [effective_media po]"
      unfolding cs using mB[of "k - Suc (length ?A)"] mc
      by (simp only: media_types_append media_types_Cons_media media_types_plan_head) simp
    with eff show ?thesis by simp
  qed
qed

theorem pdf_media_type_witness:
  "emulateMediaType po0 = None \<and>
   (\<exists>c \<in> set (new_calls w0 (snd (pdf rt_ok ''https://example.com'' po0 [] w0))).
      is_goto c \<or> is_extraction c) \<and>
   media_types (new_calls w0 (snd (pdf rt_ok ''https://example.com'' po0 [] w0))) = [Print] \<and>
   emulateMediaType po_full = Some Screen \<and>
   (\<exists>c \<in> set (new_calls w0 (snd (pdf rt_ok ''https://example.com'' po_full [] w0))).
      is_goto c \<or> is_extraction c) \<and>
   media_types (new_calls w0 (snd (pdf rt_ok ''https://example.com'' po_full [] w0))) = [Screen]"
proof -
  let ?cs = "\<lambda>po. new_calls w0 (snd (pdf rt_ok ''https://example.com'' po [] w0))"
  have u: "emulateMediaType po0 = None" by (simp add: po0_def)
  have s: "emulateMediaType po_full = Some Screen" by (simp add: po_full_def)
  have ex0: "\<exists>c \<in> set (?cs po0). is_goto c \<or> is_extraction c"
    by (simp add: renderer_defs example_defs new_calls_def)
  have ex1: "\<exists>c \<in> set (?cs po_full). is_goto c \<or> is_extraction c"
    by (simp add: renderer_defs example_defs new_calls_def)
  from pdf_media_type[of po0 w0 rt_ok "''https://example.com''" "[]"] u ex0
  have m0: "media_types (?cs po0) = [Print]" by simp
  from pdf_media_type[of po_full w0 rt_ok "''https://example.com''" "[]"] s ex1
  have m1: "media_types (?cs po_full) = [Screen]" by simp
  from u ex0 m0 s ex1 m1 show ?thesis by blast
qed

section \<open>Screenshots: settling and quality\<close>

lemma captures_member:
  "co \<in> set (captures cs) \<Longrightarrow> \<exists>q. OnPage q (Screenshot co) \<in> set cs"
  by (induction cs rule: captures.induct) auto

lemma captures_none: "\<forall>c \<in> set cs. \<not> is_capture c \<Longrightarrow> captures cs = []"
  by (induction cs rule: captures.induct) auto

lemma take_short: "k \<le> length xs \<Longrightarrow> k \<noteq> length xs \<Longrightarrow> take k xs = take k (butlast xs)"
  by (simp add: take_butlast)

lemma is_capture_rank: "is_capture c \<Longrightarrow> step_rank c = 9"
  by (induction c rule: is_capture.induct) simp_all

lemma is_settle_rank: "is_settle c \<Longrightarrow> step_rank c = 8"
  by (induction c rule: is_settle.induct) simp_all

lemma config_not_body:
  assumes "c \<in> set (NewPage # config_calls rt p url po)"
  shows "\<not> is_capture c" and "\<not> is_settle c"
  using config_ranks(2)[of rt p url po] assms is_capture_rank[of c] is_settle_rank[of c]
  by fastforce+

lemma screenshot_calls_capture:
  "c \<in> set (screenshot_calls p vo so) \<Longrightarrow> is_capture c \<Longrightarrow> c = OnPage p (Screenshot (capture_of so))"
  by (auto simp: screenshot_calls_def split: if_splits)

lemma screenshot_calls_settle:
  "c \<in> set (screenshot_calls p vo so) \<Longrightarrow> is_settle c \<Longrightarrow> animationTimeout so > 0"
  by (auto simp: screenshot_calls_def split: if_splits)

lemma butlast_screenshot_calls:
  "c \<in> set (butlast (screenshot_calls p vo so)) \<Longrightarrow> \<not> is_capture c"
  by (auto simp: screenshot_calls_def butlast_append split: if_splits)

text \<open>The calls of a screenshot call, and what follows when the capture call is among them.\<close>

lemma screenshot_run:
  obtains k closing where
    "new_calls w (snd (screenshot rt url po vo so w)) =
       take k ((NewPage # config_calls rt (pages_opened w) url po) @
                 screenshot_calls (pages_opened w) vo so) @ closing"
    and "closing = [] \<or> closing = [OnPage (pages_opened w) ClosePage]"
    and "k \<le> length ((NewPage # config_calls rt (pages_opened w) url po) @
                 screenshot_calls (pages_opened w) vo so)"
    and "\<forall>x. fst (screenshot rt url po vo so w) = Inr x \<longrightarrow>
           k = length ((NewPage # config_calls rt (pages_opened w) url po) @
                 screenshot_calls (pages_opened w) vo so)"
  using render_runs(3)[of rt w url po vo so] by (elim runs_planE) blast

lemma screenshot_member:
  assumes "c \<in> set (new_calls w (snd (screenshot rt url po vo so w)))"
  shows "c \<in> set (NewPage # config_calls rt (pages_opened w) url po) \<or>
         c \<in> set (screenshot_calls (pages_opened w) vo so) \<or> c = OnPage (pages_opened w) ClosePage"
proof -
  obtain k closing where k:
    "new_calls w (snd (screenshot rt url po vo so w)) =
       take k ((NewPage # config_calls rt (pages_opened w) url po) @
                 screenshot_calls (pages_opened w) vo so) @ closing"
    "closing = [] \<or> closing = [OnPage (pages_opened w) ClosePage]"
    by (rule screenshot_run)
  from assms k(1) have "c \<in> set (take k ((NewPage # config_calls rt (pages_opened w) url po) @
      screenshot_calls (pages_opened w) vo so)) \<or> c \<in> set closing"
    by simp
  then show ?thesis
  proof
    assume "c \<in> set (take k ((NewPage # config_calls rt (pages_opened w) url po) @
      screenshot_calls (pages_opened w) vo so))"
    then have "c \<in> set ((NewPage # config_calls rt (pages_opened w) url po) @
      screenshot_calls (pages_opened w) vo so)" by (rule in_set_takeD)
    then show ?thesis unfolding set_append by blast
  next
    assume "c \<in> set closing"
    with k(2) show ?thesis by auto
  qed
qed

lemma capture_made_whole_plan:
  assumes "c \<in> set (new_calls w (snd (screenshot rt url po vo so w)))" and "is_capture c"
  shows "\<exists>closing. new_calls w (snd (screenshot rt url po vo so w)) =
           (NewPage # config_calls rt (pages_opened w) url po) @
           screenshot_calls (pages_opened w) vo so @ closing"
proof -
  let ?pre = "NewPage # config_calls rt (pages_opened w) url po"
  let ?sc = "screenshot_calls (pages_opened w) vo so"
  obtain k closing where k:
    "new_calls w (snd (screenshot rt url po vo so w)) = take k (?pre @ ?sc) @ closing"
    "closing = [] \<or> closing = [OnPage (pages_opened w) ClosePage]"
    "k \<le> length (?pre @ ?sc)"
    by (rule screenshot_run)
  have "c \<notin> set closing" using k(2) assms(2) by auto
  with assms(1) k(1) have c: "c \<in> set (take k (?pre @ ?sc))" by simp
  have "k = length (?pre @ ?sc)"
  proof (rule ccontr)
    assume "k \<noteq> length (?pre @ ?sc)"
    with k(3) have "take k (?pre @ ?sc) = take k (butlast (?pre @ ?sc))"
      by (rule take_short)
    with c have "c \<in> set (butlast (?pre @ ?sc))" by (metis in_set_takeD)
    moreover have "?sc \<noteq> []" by (simp add: screenshot_calls_def)
    ultimately have "c \<in> set ?pre \<or> c \<in> set (butlast ?sc)"
      by (simp only: butlast_append if_False set_append Un_iff)
    with assms(2) config_not_body(1)[of c] butlast_screenshot_calls[of c] show False by blast
  qed
  with k(1) show ?thesis by simp
qed


lemma capture_of_quality:
  "imgtype (capture_of so) = imgtype so"
  "lossless (imgtype so) \<Longrightarrow> quality (capture_of so) = None"
  "\<not> lossless (imgtype so) \<Longrightarrow> quality (capture_of so) = quality so"
  by (cases "imgtype so"; simp add: capture_of_def)+

text \<open>
  C7. In every \<open>screenshot\<close> call, the options of each capture passed to the engine carry
  the requested format, no quality when the format is lossless (PNG) and the requested
  quality when it is lossy (JPEG, WebP); a call that returns has made exactly one capture,
  with these options.
\<close>

theorem quality_only_for_lossy_format:
  "(\<forall>co \<in> set (captures (screenshot_trace rt url po vo so w)).
      imgtype co = imgtype so \<and>
      (lossless (imgtype so) \<longrightarrow> quality co = None) \<and>
      (\<not> lossless (imgtype so) \<longrightarrow> quality co = quality so)) \<and>
   (\<forall>x. fst (screenshot rt url po vo so w) = Inr x \<longrightarrow>
      captures (screenshot_trace rt url po vo so w) = [capture_of so])"
proof (intro conjI ballI allI impI)
  fix co assume "co \<in> set (captures (screenshot_trace rt url po vo so w))"
  then obtain q where q: "OnPage q (Screenshot co) \<in> set (screenshot_trace rt url po vo so w)"
    using captures_member by blast
  have "is_capture (OnPage q (Screenshot co))" by simp
  with screenshot_member[OF q[unfolded screenshot_trace_def]]
    config_not_body(1)[of "OnPage q (Screenshot co)" rt "pages_opened w" url po]
    screenshot_calls_capture[of "OnPage q (Screenshot co)" "pages_opened w" vo so]
  have co: "co = capture_of so" by auto
  show "imgtype co = imgtype so" unfolding co by (rule capture_of_quality)
  show "quality co = None" if "lossless (imgtype so)"
    unfolding co using that by (rule capture_of_quality)
  show "quality co = quality so" if "\<not> lossless (imgtype so)"
    unfolding co using that by (rule capture_of_quality)
next
  fix x assume ok: "fst (screenshot rt url po vo so w) = Inr x"
  let ?pre = "NewPage # config_calls rt (pages_opened w) url po"
  let ?sc = "screenshot_calls (pages_opened w) vo so"
  obtain k closing where k:
    "new_calls w (snd (screenshot rt url po vo so w)) = take k (?pre @ ?sc) @ closing"
    "closing = [] \<or> closing = [OnPage (pages_opened w) ClosePage]"
    "k \<le> length (?pre @ ?sc)"
    "\<forall>x. fst (screenshot rt url po vo so w) = Inr x \<longrightarrow> k = length (?pre @ ?sc)"
    by (rule screenshot_run)
  from k(4)[rule_format, OF ok] k(1) have cs: "screenshot_trace rt url po vo so w = ?pre @ ?sc @ closing"
    by (simp add: screenshot_trace_def)
  have "captures ?pre = []"
    by (rule captures_none) (use config_not_body(1) in blast)
  moreover have "captures ?sc = [capture_of so]" by (simp add: screenshot_calls_def)
  moreover have "captures closing = []" using k(2) by auto
  ultimately show "captures (screenshot_trace rt url po vo so w) = [capture_of so]"
    unfolding cs captures_append by simp
qed

theorem quality_only_for_lossy_format_witness:
  "fst (screenshot rt_ok ''https://example.com'' po0 vo0 so_png w0) = Inr (Png, [137, 80, 78, 71]) \<and>
   lossless (imgtype so_png) \<and> quality so_png = Some 80 \<and>
   captures (screenshot_trace rt_ok ''https://example.com'' po0 vo0 so_png w0) =
     [\<lparr>imgtype = Png, quality = None\<rparr>] \<and>
   fst (screenshot rt_ok ''https://example.com'' po0 vo0 so_jpeg w0) = Inr (Jpeg, [137, 80, 78, 71]) \<and>
   \<not> lossless (imgtype so_jpeg) \<and>
   captures (screenshot_trace rt_ok ''https://example.com'' po0 vo0 so_jpeg w0) =
     [\<lparr>imgtype = Jpeg, quality = Some 80\<rparr>]"
proof -
  have a: "fst (screenshot rt_ok ''https://example.com'' po0 vo0 so_png w0) = Inr (Png, [137, 80, 78, 71])"
    by (simp add: renderer_defs example_defs)
  have b: "fst (screenshot rt_ok ''https://example.com'' po0 vo0 so_jpeg w0) = Inr (Jpeg, [137, 80, 78, 71])"
    by (simp add: renderer_defs example_defs)
  from quality_only_for_lossy_format[of rt_ok "''https://example.com''" po0 vo0 so_png w0] a
  have "captures (screenshot_trace rt_ok ''https://example.com'' po0 vo0 so_png w0) = [capture_of so_png]"
    by blast
  moreover
  from quality_only_for_lossy_format[of rt_ok "''https://example.com''" po0 vo0 so_jpeg w0] b
  have "captures (screenshot_trace rt_ok ''https://example.com'' po0 vo0 so_jpeg w0) = [capture_of so_jpeg]"
    by blast
  ultimately show ?thesis using a b by (simp add: capture_of_def so_png_def so_jpeg_def)
qed


lemma settle_only_when_positive:
  assumes "c \<in> set (screenshot_trace rt url po vo so w)" and "is_settle c"
  shows "animationTimeout so > 0"
  using screenshot_member[OF assms(1)[unfolded screenshot_trace_def]] assms(2)
    config_not_body(2)[of c rt "pages_opened w" url po]
    screenshot_calls_settle[of c "pages_opened w" vo so]
  by auto

lemma screenshot_body_settles:
  assumes "\<not> rejects rt (trace w1 @ [OnPage q (SetViewport vo)])"
  shows "(\<exists>c \<in> set (new_calls w1 (snd (screenshot_body rt vo so q w1))). is_settle c) =
         (animationTimeout so > 0)"
  using assms
  by (simp add: screenshot_body_def page_screenshot_def bind_io_def perform_def return_io_def
      Let_def new_calls_def)

lemma capture_after_settle:
  assumes "\<exists>c \<in> set (new_calls w1 (snd (screenshot_body rt vo so q w1))). is_capture c"
    and "animationTimeout so > 0"
  shows "\<not> rejects rt (trace w1 @ [OnPage q (SetViewport vo),
           OnPage q (WaitForAnimations so (animationTimeout so))])"
  using assms
  by (auto simp: screenshot_body_def page_screenshot_def bind_io_def perform_def return_io_def
      Let_def new_calls_def split: if_splits)

text \<open>
  C6. In every \<open>screenshot\<close> call the settler is invoked only if \<open>animationTimeout > 0\<close>.
  Whenever the capture is made, the settler has been invoked exactly if
  \<open>animationTimeout > 0\<close>: for \<open>animationTimeout \<le> 0\<close> the capture follows the viewport call
  immediately, for \<open>animationTimeout > 0\<close> the settler call lies between the two, so the
  capture starts after the settler has returned. In the body of the operation, once the
  viewport call has resolved, the settler is invoked if and only if \<open>animationTimeout > 0\<close>,
  and for \<open>animationTimeout > 0\<close> the capture is made only when the settler call resolved.
\<close>

theorem settler_iff_timeout_positive:
  "((\<exists>c \<in> set (screenshot_trace rt url po vo so w). is_settle c) \<longrightarrow> animationTimeout so > 0) \<and>
   ((\<exists>c \<in> set (screenshot_trace rt url po vo so w). is_capture c) \<longrightarrow>
      ((\<exists>c \<in> set (screenshot_trace rt url po vo so w). is_settle c) = (animationTimeout so > 0)) \<and>
      (animationTimeout so \<le> 0 \<longrightarrow>
         sublist [OnPage (pages_opened w) (SetViewport vo),
                  OnPage (pages_opened w) (Screenshot (capture_of so))]
           (screenshot_trace rt url po vo so w)) \<and>
      (animationTimeout so > 0 \<longrightarrow>
         sublist [OnPage (pages_opened w) (SetViewport vo),
                  OnPage (pages_opened w) (WaitForAnimations so (animationTimeout so)),
                  OnPage (pages_opened w) (Screenshot (capture_of so))]
           (screenshot_trace rt url po vo so w))) \<and>
   (\<not> rejects rt (trace w1 @ [OnPage q (SetViewport vo)]) \<longrightarrow>
      (\<exists>c \<in> set (new_calls w1 (snd (screenshot_body rt vo so q w1))). is_settle c) =
      (animationTimeout so > 0)) \<and>
   ((\<exists>c \<in> set (new_calls w1 (snd (screenshot_body rt vo so q w1))). is_capture c) \<and>
    animationTimeout so > 0 \<longrightarrow>
      \<not> rejects rt (trace w1 @ [OnPage q (SetViewport vo),
          OnPage q (WaitForAnimations so (animationTimeout so))]))"
proof (intro conjI impI)
  show "\<not> rejects rt (trace w1 @ [OnPage q (SetViewport vo),
          OnPage q (WaitForAnimations so (animationTimeout so))])"
    if "(\<exists>c \<in> set (new_calls w1 (snd (screenshot_body rt vo so q w1))). is_capture c) \<and>
      animationTimeout so > 0"
    using that capture_after_settle by blast
  let ?cs = "screenshot_trace rt url po vo so w"
  let ?p = "pages_opened w"
  show "animationTimeout so > 0" if "\<exists>c \<in> set ?cs. is_settle c"
    using that settle_only_when_positive by blast
  show "(\<exists>c \<in> set (new_calls w1 (snd (screenshot_body rt vo so q w1))). is_settle c) =
      (animationTimeout so > 0)"
    if "\<not> rejects rt (trace w1 @ [OnPage q (SetViewport vo)])"
    using that by (rule screenshot_body_settles)
  assume "\<exists>c \<in> set ?cs. is_capture c"
  then obtain c where "c \<in> set (new_calls w (snd (screenshot rt url po vo so w)))" "is_capture c"
    unfolding screenshot_trace_def by blast
  from capture_made_whole_plan[OF this] obtain closing where
    cs: "?cs = (NewPage # config_calls rt ?p url po) @ screenshot_calls ?p vo so @ closing"
    unfolding screenshot_trace_def by blast
  have sub: "sublist (screenshot_calls ?p vo so) ?cs"
    unfolding cs by (rule sublist_appendI)
  show "(\<exists>c \<in> set ?cs. is_settle c) = (animationTimeout so > 0)"
  proof
    assume "\<exists>c \<in> set ?cs. is_settle c"
    then show "animationTimeout so > 0" using settle_only_when_positive by blast
  next
    assume "animationTimeout so > 0"
    then have "OnPage ?p (WaitForAnimations so (animationTimeout so)) \<in> set (screenshot_calls ?p vo so)"
      by (simp add: screenshot_calls_def)
    then have "OnPage ?p (WaitForAnimations so (animationTimeout so)) \<in> set ?cs"
      unfolding cs by simp
    moreover have "is_settle (OnPage ?p (WaitForAnimations so (animationTimeout so)))" by simp
    ultimately show "\<exists>c \<in> set ?cs. is_settle c" by blast
  qed
  show "sublist [OnPage ?p (SetViewport vo), OnPage ?p (Screenshot (capture_of so))] ?cs"
    if "animationTimeout so \<le> 0"
    using sub that by (simp add: screenshot_calls_def)
  show "sublist [OnPage ?p (SetViewport vo), OnPage ?p (WaitForAnimations so (animationTimeout so)),
                  OnPage ?p (Screenshot (capture_of so))] ?cs"
    if "animationTimeout so > 0"
    using sub that by (simp add: screenshot_calls_def)
qed

theorem settler_iff_timeout_positive_witness:
  "animationTimeout so_png \<le> 0 \<and>
   screenshot_trace rt_ok ''https://example.com'' po0 vo0 so_png w0 =
     [NewPage, OnPage 0 OnError, OnPage 0 (SetCacheEnabled False),
      OnPage 0 (Goto ''https://example.com'' \<lparr>timeout = None, waitUntil = None\<rparr>),
      OnPage 0 (SetViewport vo0), OnPage 0 (Screenshot \<lparr>imgtype = Png, quality = None\<rparr>),
      OnPage 0 ClosePage] \<and>
   animationTimeout so_jpeg > 0 \<and>
   (\<exists>c \<in> set (screenshot_trace rt_ok ''https://example.com'' po0 vo0 so_jpeg w0). is_capture c) \<and>
   (\<exists>c \<in> set (screenshot_trace rt_ok ''https://example.com'' po0 vo0 so_jpeg w0). is_settle c) \<and>
   sublist [OnPage 0 (SetViewport vo0), OnPage 0 (WaitForAnimations so_jpeg 500),
            OnPage 0 (Screenshot \<lparr>imgtype = Jpeg, quality = Some 80\<rparr>)]
     (screenshot_trace rt_ok ''https://example.com'' po0 vo0 so_jpeg w0) \<and>
   \<not> rejects rt_ok (trace w0 @ [OnPage 0 (SetViewport vo0)]) \<and>
   (\<exists>c \<in> set (new_calls w0 (snd (screenshot_body rt_ok vo0 so_jpeg 0 w0))). is_settle c)"
proof -
  have t0: "animationTimeout so_png \<le> 0" by (simp add: so_png_def)
  have t1: "animationTimeout so_jpeg > 0" by (simp add: so_jpeg_def)
  have tr: "screenshot_trace rt_ok ''https://example.com'' po0 vo0 so_png w0 =
     [NewPage, OnPage 0 OnError, OnPage 0 (SetCacheEnabled False),
      OnPage 0 (Goto ''https://example.com'' \<lparr>timeout = None, waitUntil = None\<rparr>),
      OnPage 0 (SetViewport vo0), OnPage 0 (Screenshot \<lparr>imgtype = Png, quality = None\<rparr>),
      OnPage 0 ClosePage]"
    by (simp add: screenshot_trace_def new_calls_def renderer_defs example_defs)
  have cap: "\<exists>c \<in> set (screenshot_trace rt_ok ''https://example.com'' po0 vo0 so_jpeg w0). is_capture c"
    by (simp add: screenshot_trace_def new_calls_def renderer_defs example_defs)
  have p: "pages_opened w0 = 0" by (simp add: w0_def)
  have c: "capture_of so_jpeg = \<lparr>imgtype = Jpeg, quality = Some 80\<rparr>"
    "animationTimeout so_jpeg = 500"
    by (simp_all add: capture_of_def so_jpeg_def)
  have acc: "\<not> rejects rt_ok (trace w0 @ [OnPage 0 (SetViewport vo0)])"
    by (simp add: rt_ok_def)
  from settler_iff_timeout_positive[of rt_ok "''https://example.com''" po0 vo0 so_jpeg w0 w0 0]
    cap t1 acc
  have "(\<exists>c \<in> set (screenshot_trace rt_ok ''https://example.com'' po0 vo0 so_jpeg w0). is_settle c) \<and>
    sublist [OnPage 0 (SetViewport vo0), OnPage 0 (WaitForAnimations so_jpeg 500),
            OnPage 0 (Screenshot \<lparr>imgtype = Jpeg, quality = Some 80\<rparr>)]
     (screenshot_trace rt_ok ''https://example.com'' po0 vo0 so_jpeg w0) \<and>
    (\<exists>c \<in> set (new_calls w0 (snd (screenshot_body rt_ok vo0 so_jpeg 0 w0))). is_settle c)"
    unfolding p c by blast
  with t0 t1 tr cap acc show ?thesis by blast
qed

section \<open>Malformed header JSON\<close>

lemma createPage2_bad_headers:
  assumes "headers po = Some h" and "h \<noteq> []" and "JSON_parse rt h = None"
    and "\<not> rejects rt (trace w @ [NewPage])"
  shows "fst (createPage2 rt url po w) = Inl (SyntaxError h)"
  using assms
  by (simp add: createPage2_def newPage_def configure_def apply_headers_def page_on_error_def
      bind_io_def perform_def throw_io_def Let_def)

lemma createPage_bad_headers:
  assumes "headers po = Some h" and "h \<noteq> []" and "JSON_parse rt h = None"
    and "\<not> rejects rt (trace w @ [NewPage])" and "wf_world w"
  shows "new_calls w (snd (createPage rt url po w)) =
           [NewPage, OnPage (pages_opened w) OnError, OnPage (pages_opened w) ClosePage]"
    and "trace (snd (createPage rt url po w)) =
           trace w @ [NewPage, OnPage (pages_opened w) OnError, OnPage (pages_opened w) ClosePage]"
    and "pages_opened (snd (createPage rt url po w)) = Suc (pages_opened w)"
    and "pages_closed (snd (createPage rt url po w)) =
           (if rejects rt (trace w @ [NewPage, OnPage (pages_opened w) OnError,
                 OnPage (pages_opened w) ClosePage])
            then pages_closed w else pages_closed w @ [pages_opened w])"
proof -
  have nc: "pages_opened w \<notin> set (pages_closed w)"
    using assms(5) by (auto simp: wf_world_def)
  show "new_calls w (snd (createPage rt url po w)) =
           [NewPage, OnPage (pages_opened w) OnError, OnPage (pages_opened w) ClosePage]"
    using assms(1-4) nc
    by (simp add: createPage_def newPage_def configure_def apply_headers_def page_on_error_def
        bind_io_def perform_def throw_io_def Let_def createPage_catch_def log_error_def
        closePage_def isClosed_def page_close_def new_calls_def)
  show "trace (snd (createPage rt url po w)) =
           trace w @ [NewPage, OnPage (pages_opened w) OnError, OnPage (pages_opened w) ClosePage]"
    using assms(1-4) nc
    by (simp add: createPage_def newPage_def configure_def apply_headers_def page_on_error_def
        bind_io_def perform_def throw_io_def Let_def createPage_catch_def log_error_def
        closePage_def isClosed_def page_close_def)
  show "pages_opened (snd (createPage rt url po w)) = Suc (pages_opened w)"
    using assms(1-4) nc
    by (simp add: createPage_def newPage_def configure_def apply_headers_def page_on_error_def
        bind_io_def perform_def throw_io_def Let_def createPage_catch_def log_error_def
        closePage_def isClosed_def page_close_def)
  show "pages_closed (snd (createPage rt url po w)) =
           (if rejects rt (trace w @ [NewPage, OnPage (pages_opened w) OnError,
                 OnPage (pages_opened w) ClosePage])
            then pages_closed w else pages_closed w @ [pages_opened w])"
    using assms(1-4) nc
    by (simp add: createPage_def newPage_def configure_def apply_headers_def page_on_error_def
        bind_io_def perform_def throw_io_def Let_def createPage_catch_def log_error_def
        closePage_def isClosed_def page_close_def)
qed

lemma createPage_fails_bad_headers:
  assumes "headers po = Some h" and "h \<noteq> []" and "JSON_parse rt h = None"
    and "\<not> rejects rt (trace w @ [NewPage])"
  shows "fst (createPage rt url po w) = Inl (SyntaxError h)"
  using createPage2_bad_headers[OF assms] by (simp add: createPage_fst)

lemma scoped_bad_headers:
  assumes "headers po = Some h" and "h \<noteq> []" and "JSON_parse rt h = None"
    and "\<not> rejects rt (trace w @ [NewPage])"
  shows "fst (with_created rt (createPage rt url po) body w) = Inl (SyntaxError h)"
    and "fst (withPage rt body2 url po w) = Inl (SyntaxError h)"
  using createPage2_bad_headers[OF assms, of url]
  by (cases "createPage2 rt url po w"; simp add: with_created_fst withPage_fst)+

lemma world_bad_headers:
  assumes "headers po = Some h" and "h \<noteq> []" and "JSON_parse rt h = None"
    and "\<not> rejects rt (trace w @ [NewPage])" and "wf_world w"
    and w': "w' = snd (with_created rt (createPage rt url po) body w)"
  shows "new_calls w w' =
           [NewPage, OnPage (pages_opened w) OnError, OnPage (pages_opened w) ClosePage] \<and>
         (\<not> rejects rt (trace w') \<longrightarrow> all_closed w w')"
proof -
  have s: "w' = snd (createPage rt url po w)"
    unfolding w' by (rule with_created_failed[OF createPage_fails_bad_headers[OF assms(1-4)]])
  note c = createPage_bad_headers[OF assms(1-5), of url]
  show ?thesis unfolding s using c by (simp add: all_closed_def)
qed

text \<open>
  C4 (as amended). When \<open>pageOptions\<close> carries a non-empty \<open>headers\<close> string that
  \<^verbatim>\<open>JSON.parse\<close> rejects and the engine opens the page, \<open>html\<close>, \<open>pdf\<close> and \<open>screenshot\<close> of
  both renderers fail with the parse error of that string (the error is passed on as it is
  raised). In the renderer whose \<open>createPage\<close> has the catch block the calls made are new
  page, listener registration and \<^verbatim>\<open>page.close()\<close>, and, unless the engine rejects that close,
  the page opened is closed when the call returns.
\<close>

theorem malformed_headers_fail:
  assumes "headers po = Some h" and "h \<noteq> []" and "JSON_parse rt h = None"
    and "\<not> rejects rt (trace w @ [NewPage])" and "wf_world w"
  shows "render_results rt url po pdfo vo so w =
           (Inl (SyntaxError h), Inl (SyntaxError h), Inl (SyntaxError h),
            Inl (SyntaxError h), Inl (SyntaxError h), Inl (SyntaxError h)) \<and>
         (\<forall>w' \<in> set (render_worlds rt url po pdfo vo so w).
            new_calls w w' =
              [NewPage, OnPage (pages_opened w) OnError, OnPage (pages_opened w) ClosePage] \<and>
            (\<not> rejects rt (trace w') \<longrightarrow> all_closed w w'))"
proof -
  have hp: "headers (pdf_pageOptions po) = Some h"
    using assms(1) by (simp add: pdf_pageOptions_def)
  note a = assms(2-4)
  have "render_results rt url po pdfo vo so w =
           (Inl (SyntaxError h), Inl (SyntaxError h), Inl (SyntaxError h),
            Inl (SyntaxError h), Inl (SyntaxError h), Inl (SyntaxError h))"
    unfolding render_results_def html_def pdf_def screenshot_def html2_def pdf2_def
      screenshot2_def
    by (simp only: scoped_bad_headers[OF assms(1) a] scoped_bad_headers[OF hp a])
  moreover have "new_calls w w' =
              [NewPage, OnPage (pages_opened w) OnError, OnPage (pages_opened w) ClosePage] \<and>
            (\<not> rejects rt (trace w') \<longrightarrow> all_closed w w')"
    if "w' \<in> set (render_worlds rt url po pdfo vo so w)" for w'
  proof -
    from that consider "w' = snd (html rt url po w)" | "w' = snd (pdf rt url po pdfo w)"
      | "w' = snd (screenshot rt url po vo so w)"
      by (auto simp: render_worlds_def)
    then show ?thesis
    proof cases
      case 1
      then show ?thesis unfolding html_def
        by (rule world_bad_headers[OF assms(1) a assms(5)])
    next
      case 2
      then show ?thesis unfolding pdf_def
        by (rule world_bad_headers[OF hp a assms(5)])
    next
      case 3
      then show ?thesis unfolding screenshot_def
        by (rule world_bad_headers[OF assms(1) a assms(5)])
    qed
  qed
  then have "\<forall>w' \<in> set (render_worlds rt url po pdfo vo so w).
            new_calls w w' =
              [NewPage, OnPage (pages_opened w) OnError, OnPage (pages_opened w) ClosePage] \<and>
            (\<not> rejects rt (trace w') \<longrightarrow> all_closed w w')"
    by blast
  ultimately show ?thesis by blast
qed

theorem malformed_headers_fail_witness:
  "headers po_bad_headers = Some ''{'' \<and> JSON_parse rt_ok ''{'' = None \<and>
   \<not> rejects rt_ok (trace w0 @ [NewPage]) \<and> wf_world w0 \<and>
   fst (html rt_ok ''https://example.com'' po_bad_headers w0) = Inl (SyntaxError ''{'') \<and>
   new_calls w0 (snd (html rt_ok ''https://example.com'' po_bad_headers w0)) =
     [NewPage, OnPage 0 OnError, OnPage 0 ClosePage] \<and>
   all_closed w0 (snd (html rt_ok ''https://example.com'' po_bad_headers w0))"
proof -
  have h: "headers po_bad_headers = Some ''{''" by (simp add: po_bad_headers_def po0_def)
  have n: "''{'' \<noteq> []" by simp
  have j: "JSON_parse rt_ok ''{'' = None" by (simp add: rt_ok_def example_parse_def)
  have r: "\<not> rejects rt_ok (trace w0 @ [NewPage])" by (simp add: rt_ok_def)
  have wf: "wf_world w0" by (simp add: wf_world_def w0_def)
  have p: "pages_opened w0 = 0" by (simp add: w0_def)
  have acc: "\<not> rejects rt_ok t" for t by (simp add: rt_ok_def)
  from malformed_headers_fail[OF h n j r wf, of "''https://example.com''" "[]" vo0 so0]
  have "fst (html rt_ok ''https://example.com'' po_bad_headers w0) = Inl (SyntaxError ''{'') \<and>
    new_calls w0 (snd (html rt_ok ''https://example.com'' po_bad_headers w0)) =
      [NewPage, OnPage 0 OnError, OnPage 0 ClosePage] \<and>
    all_closed w0 (snd (html rt_ok ''https://example.com'' po_bad_headers w0))"
    unfolding p by (simp add: render_results_def render_worlds_def acc)
  with h j r wf show ?thesis by blast
qed

text \<open>
  C4 as stated fails: an empty \<open>headers\<close> string is not valid JSON, yet it is falsy, so it is
  never parsed and the call returns the content.
\<close>

theorem empty_headers_counterexample:
  "headers po_empty_headers = Some '''' \<and> JSON_parse rt_ok '''' = None \<and>
   fst (html rt_ok ''https://example.com'' po_empty_headers w0) = Inr ''<html></html>''"
  by (simp add: renderer_defs example_defs)

text \<open>
  The renderer with \<open>withPage\<close> assigns \<open>page\<close> only when \<open>createPage\<close> returns, and its
  \<open>createPage\<close> has no catch block: when configuration or navigation fails, the page that
  was opened is never closed.
\<close>

lemma withPage_leaves_page_open:
  "fst (html2 rt_ok ''https://example.com'' po_bad_headers w0) = Inl (SyntaxError ''{'') \<and>
   new_calls w0 (snd (html2 rt_ok ''https://example.com'' po_bad_headers w0)) =
     [NewPage, OnPage 0 OnError] \<and>
   pages_opened (snd (html2 rt_ok ''https://example.com'' po_bad_headers w0)) = 1 \<and>
   pages_closed (snd (html2 rt_ok ''https://example.com'' po_bad_headers w0)) = [] \<and>
   pages_opened (snd (html2 rt_goto_fails ''https://example.com'' po0 w0)) = 1 \<and>
   pages_closed (snd (html2 rt_goto_fails ''https://example.com'' po0 w0)) = []"
  by (simp add: renderer_defs example_defs new_calls_def)

section \<open>Launch and shutdown\<close>

lemmas store_defs =
  obj_at_def array_at_def new_object_def new_array_def set_args_def push_def fixed_flags_def
  options_param_def launch_and_wrap_def create_def create2_def caller_args_def


text \<open>
  C10. \<open>create\<close> changes the options object of its caller in place: when the object has an
  \<open>args\<close> array, that same array holds its old contents followed by the five flags after
  the call; when it has none, a new array holding the five flags is stored in the object.
  The other options are unchanged, and the store after the call differs from the store
  before it, also when the launch fails.
\<close>

theorem create_mutates_caller_options:
  "(\<forall>r. args (obj_at s a) = Some r \<longrightarrow>
      args (obj_at (snd (create launch (Some a) s)) a) = Some r \<and>
      arrays (snd (create launch (Some a) s)) r = Some (array_at s r @ fixed_flags)) \<and>
   (args (obj_at s a) = None \<longrightarrow>
      args (obj_at (snd (create launch (Some a) s)) a) = Some (next_ref s) \<and>
      arrays (snd (create launch (Some a) s)) (next_ref s) = Some fixed_flags) \<and>
   rest (obj_at (snd (create launch (Some a) s)) a) = rest (obj_at s a) \<and>
   snd (create launch (Some a) s) \<noteq> s"
proof (intro conjI allI impI)
  fix r assume r: "args (obj_at s a) = Some r"
  then show "args (obj_at (snd (create launch (Some a) s)) a) = Some r"
    by (simp add: store_defs Let_def split: option.splits)
  from r show "arrays (snd (create launch (Some a) s)) r = Some (array_at s r @ fixed_flags)"
    by (simp add: store_defs Let_def split: option.splits)
next
  assume n: "args (obj_at s a) = None"
  then show "args (obj_at (snd (create launch (Some a) s)) a) = Some (next_ref s)"
    by (simp add: store_defs Let_def split: option.splits)
  from n show "arrays (snd (create launch (Some a) s)) (next_ref s) = Some fixed_flags"
    by (simp add: store_defs Let_def split: option.splits)
next
  show "rest (obj_at (snd (create launch (Some a) s)) a) = rest (obj_at s a)"
    by (simp add: store_defs Let_def split: option.splits)
  show "snd (create launch (Some a) s) \<noteq> s"
  proof (cases "args (obj_at s a)")
    case None
    then have "args (obj_at (snd (create launch (Some a) s)) a) = Some (next_ref s)"
      by (simp add: store_defs Let_def split: option.splits)
    with None show ?thesis by auto
  next
    case (Some r)
    then have "array_at (snd (create launch (Some a) s)) r = array_at s r @ fixed_flags"
      by (simp add: store_defs Let_def split: option.splits)
    then have "array_at (snd (create launch (Some a) s)) r \<noteq> array_at s r"
      by (simp add: fixed_flags_def)
    then show ?thesis by auto
  qed
qed


theorem create_mutates_caller_options_witness:
  "args (obj_at s_args 0) = Some 1 \<and> array_at s_args 1 = [''--lang=en''] \<and>
   args (obj_at (snd (create launch_ok (Some 0) s_args)) 0) = Some 1 \<and>
   arrays (snd (create launch_ok (Some 0) s_args)) 1 =
     Some [''--lang=en'', ''--no-sandbox'', ''--disable-web-security'',
       ''--disable-dev-shm-usage'', ''--disk-cache-size=0'', ''--aggressive-cache-discard''] \<and>
   args (obj_at s_noargs 0) = None \<and> next_ref s_noargs = 1 \<and>
   args (obj_at (snd (create launch_fails (Some 0) s_noargs)) 0) = Some 1 \<and>
   arrays (snd (create launch_fails (Some 0) s_noargs)) 1 =
     Some [''--no-sandbox'', ''--disable-web-security'',
       ''--disable-dev-shm-usage'', ''--disk-cache-size=0'', ''--aggressive-cache-discard'']"
proof -
  have a: "args (obj_at s_args 0) = Some 1" "array_at s_args 1 = [''--lang=en'']"
    by (simp_all add: obj_at_def array_at_def s_args_def)
  have b: "args (obj_at s_noargs 0) = None" "next_ref s_noargs = 1"
    by (simp_all add: obj_at_def s_noargs_def)
  from create_mutates_caller_options[of s_args 0 launch_ok] a
  have 1: "args (obj_at (snd (create launch_ok (Some 0) s_args)) 0) = Some 1 \<and>
    arrays (snd (create launch_ok (Some 0) s_args)) 1 = Some ([''--lang=en''] @ fixed_flags)"
    by simp
  from create_mutates_caller_options[of s_noargs 0 launch_fails] b
  have 2: "args (obj_at (snd (create launch_fails (Some 0) s_noargs)) 0) = Some 1 \<and>
    arrays (snd (create launch_fails (Some 0) s_noargs)) 1 = Some fixed_flags"
    by simp
  from a b 1 2 show ?thesis by (simp add: fixed_flags_def)
qed

lemma browser_close_cases:
  "browser_close rt w =
     (if rejects rt (trace w @ [BrowserClose])
      then (Inl (Rejected BrowserClose), w\<lparr>trace := trace w @ [BrowserClose]\<rparr>)
      else (Inr (), w\<lparr>trace := trace w @ [BrowserClose], browser_open := False\<rparr>))"
  by (simp add: browser_close_def perform_def Let_def)

lemma removeSync_cases:
  "removeSync rt d w =
     (if rejects rt (trace w @ [RemoveSync d])
      then (Inl (Rejected (RemoveSync d)), w\<lparr>trace := trace w @ [RemoveSync d]\<rparr>)
      else (Inr (), w\<lparr>trace := trace w @ [RemoveSync d],
              paths := filter (\<lambda>p. \<not> (p = d \<or> prefix (d @ ''/'') p)) (paths w)\<rparr>))"
  by (simp add: removeSync_def perform_def Let_def)

text \<open>
  C9. When \<open>close\<close> returns, the browser is closed and, if a directory path was recorded at
  launch, \<^verbatim>\<open>fs.removeSync\<close> has been called on it after the browser was closed, so that the
  directory no longer exists; with no directory recorded only the browser is closed. The
  \<open>close\<close> of the renderer that records no directory closes the browser.
\<close>

theorem shutdown_removes_data_dir:
  "(fst (close rt r w) = Inr () \<longrightarrow>
      \<not> browser_open (snd (close rt r w)) \<and>
      (\<forall>d. chromeTmpDataDir r = Some d \<and> d \<noteq> [] \<longrightarrow>
         new_calls w (snd (close rt r w)) = [BrowserClose, RemoveSync d] \<and>
         d \<notin> set (paths (snd (close rt r w)))) \<and>
      (chromeTmpDataDir r = None \<longrightarrow>
         new_calls w (snd (close rt r w)) = [BrowserClose] \<and>
         paths (snd (close rt r w)) = paths w)) \<and>
   (fst (close2 rt w) = Inr () \<longrightarrow>
      \<not> browser_open (snd (close2 rt w)) \<and> new_calls w (snd (close2 rt w)) = [BrowserClose])"
proof (intro conjI impI allI)
  assume ok: "fst (close rt r w) = Inr ()"
  then have acc: "\<not> rejects rt (trace w @ [BrowserClose])"
    by (auto simp: close_def bind_io_def browser_close_cases split: if_splits)
  show "\<not> browser_open (snd (close rt r w))"
    using acc
    by (simp add: close_def bind_io_def browser_close_cases removeSync_cases return_io_def
        split: option.splits)
  show "new_calls w (snd (close rt r w)) = [BrowserClose]" if "chromeTmpDataDir r = None"
    using acc that by (simp add: close_def bind_io_def browser_close_cases return_io_def new_calls_def)
  show "paths (snd (close rt r w)) = paths w" if "chromeTmpDataDir r = None"
    using acc that by (simp add: close_def bind_io_def browser_close_cases return_io_def)
  fix d assume d: "chromeTmpDataDir r = Some d \<and> d \<noteq> []"
  with ok acc have acc2: "\<not> rejects rt (trace w @ [BrowserClose, RemoveSync d])"
    by (auto simp: close_def bind_io_def browser_close_cases removeSync_cases split: if_splits)
  show "new_calls w (snd (close rt r w)) = [BrowserClose, RemoveSync d]"
    using acc acc2 d
    by (simp add: close_def bind_io_def browser_close_cases removeSync_cases new_calls_def)
  show "d \<notin> set (paths (snd (close rt r w)))"
    using acc acc2 d
    by (simp add: close_def bind_io_def browser_close_cases removeSync_cases)
next
  assume ok: "fst (close2 rt w) = Inr ()"
  then have acc: "\<not> rejects rt (trace w @ [BrowserClose])"
    by (auto simp: close2_def browser_close_cases split: if_splits)
  then show "\<not> browser_open (snd (close2 rt w))"
    by (simp add: close2_def browser_close_cases)
  from acc show "new_calls w (snd (close2 rt w)) = [BrowserClose]"
    by (simp add: close2_def browser_close_cases new_calls_def)
qed

theorem shutdown_removes_data_dir_witness:
  "snd (fst (create launch_ok (Some 0) s_args)) = Inr \<lparr>chromeTmpDataDir = Some ''/tmp/pptr''\<rparr> \<and>
   ''/tmp/pptr'' \<in> set (paths w_dir) \<and>
   fst (close rt_ok \<lparr>chromeTmpDataDir = Some ''/tmp/pptr''\<rparr> w_dir) = Inr () \<and>
   \<not> browser_open (snd (close rt_ok \<lparr>chromeTmpDataDir = Some ''/tmp/pptr''\<rparr> w_dir)) \<and>
   new_calls w_dir (snd (close rt_ok \<lparr>chromeTmpDataDir = Some ''/tmp/pptr''\<rparr> w_dir)) =
     [BrowserClose, RemoveSync ''/tmp/pptr''] \<and>
   ''/tmp/pptr'' \<notin> set (paths (snd (close rt_ok \<lparr>chromeTmpDataDir = Some ''/tmp/pptr''\<rparr> w_dir))) \<and>
   fst (close2 rt_ok w_dir) = Inr () \<and> \<not> browser_open (snd (close2 rt_ok w_dir))"
proof -
  let ?r = "\<lparr>chromeTmpDataDir = Some ''/tmp/pptr''\<rparr>"
  have c: "snd (fst (create launch_ok (Some 0) s_args)) = Inr ?r"
    by (simp add: store_defs Let_def s_args_def launch_ok_def)
  have p: "''/tmp/pptr'' \<in> set (paths w_dir)" by (simp add: w_dir_def w0_def)
  have ok: "fst (close rt_ok ?r w_dir) = Inr ()"
    by (simp add: close_def bind_io_def browser_close_cases removeSync_cases rt_ok_def)
  have ok2: "fst (close2 rt_ok w_dir) = Inr ()"
    by (simp add: close2_def browser_close_cases rt_ok_def)
  have d: "chromeTmpDataDir ?r = Some ''/tmp/pptr'' \<and> ''/tmp/pptr'' \<noteq> []" by simp
  from shutdown_removes_data_dir[of rt_ok ?r w_dir] ok ok2 d
  have "\<not> browser_open (snd (close rt_ok ?r w_dir)) \<and>
    new_calls w_dir (snd (close rt_ok ?r w_dir)) = [BrowserClose, RemoveSync ''/tmp/pptr''] \<and>
    ''/tmp/pptr'' \<notin> set (paths (snd (close rt_ok ?r w_dir))) \<and>
    \<not> browser_open (snd (close2 rt_ok w_dir))"
    by blast
  with c p ok ok2 show ?thesis by blast
qed

end
